theory Spec2Isabelle
  imports Complex_Main "HOL-Library.Log_Nat"
begin

section \<open>Python values used by the cogs\<close>

text \<open>
  The three cogs (economy, gambling, gametools) are embedded as functions over an explicit
  world: the guild's tables, the guild's members and the clock. Python integers are
  \<open>int\<close>; Python floats are the rationals that are IEEE-754 doubles, every float
  operation being the exact operation followed by \<open>fl\<close>, the rounding to the nearest
  double (ties to even). The exponent range of a double and the 64-bit range of an SQL
  INTEGER column are not modelled. Strings are byte strings; the character classes below
  are the ASCII part of Python's.
\<close>

datatype error =
    ValueError
  | TypeError
  | IntegrityError
  | ZeroDivisionError
  | BadFormat
  | TooManyDice

text \<open>\<open>BadFormat\<close> and \<open>TooManyDice\<close> are the two \<open>commands.BadArgument\<close> raises of
  the throw parser.\<close>

subsection \<open>Floats\<close>

definition round_half_even :: "rat \<Rightarrow> int" where
  "round_half_even x =
     (let f = \<lfloor>x\<rfloor>; d = x - of_int f
      in if d < 1 / 2 then f else if 1 / 2 < d then f + 1 else if even f then f else f + 1)"

text \<open>\<open>binade x\<close> is the exponent \<open>e\<close> with \<open>2 ^ e \<le> x < 2 ^
  (e + 1)\<close>, for \<open>x > 0\<close>.\<close>

definition binade :: "rat \<Rightarrow> int" where
  "binade x = (if 1 \<le> x then bitlen \<lfloor>x\<rfloor> - 1 else - bitlen (\<lceil>1 / x\<rceil> - 1))"

definition fl :: "rat \<Rightarrow> rat" where
  "fl x = (if x = 0 then 0
           else let u = 2 powi (binade \<bar>x\<bar> - 52)
                in of_int (round_half_even (x / u)) * u)"

text \<open>\<open>int(x)\<close> on a float truncates toward zero; \<open>round(x)\<close> is
  \<open>round_half_even\<close>.\<close>

definition py_int :: "rat \<Rightarrow> int" where
  "py_int x = (if 0 \<le> x then \<lfloor>x\<rfloor> else \<lceil>x\<rceil>)"

text \<open>\<open>a / b\<close> on two Python integers: the double nearest the exact quotient.\<close>

definition int_truediv :: "int \<Rightarrow> int \<Rightarrow> error + rat" where
  "int_truediv a b = (if b = 0 then Inl ZeroDivisionError else Inr (fl (of_int a / of_int b)))"

subsection \<open>Strings\<close>




text \<open>\<open>s.split(c)\<close> for a separator of one character.\<close>

fun split_on :: "char \<Rightarrow> string \<Rightarrow> string list" where
  "split_on c [] = [[]]"
| "split_on c (x # xs) =
     (if x = c then [] # split_on c xs
      else (case split_on c xs of [] \<Rightarrow> [[x]] | y # ys \<Rightarrow> (x # y) # ys))"

definition lower_char :: "char \<Rightarrow> char" where
  "lower_char c = (if c \<in> set ''ABCDEFGHIJKLMNOPQRSTUVWXYZ''
                   then char_of (of_char c + (32 :: nat)) else c)"

definition upper_char :: "char \<Rightarrow> char" where
  "upper_char c = (if c \<in> set ''abcdefghijklmnopqrstuvwxyz''
                   then char_of (of_char c - (32 :: nat)) else c)"

definition lower :: "string \<Rightarrow> string" where
  "lower s = map lower_char s"

definition capitalize :: "string \<Rightarrow> string" where
  "capitalize s = (case s of [] \<Rightarrow> [] | c # cs \<Rightarrow> upper_char c # lower cs)"




text \<open>\<open>str(n)\<close> on an integer.\<close>

function str_digits :: "int \<Rightarrow> string" where
  "str_digits n =
     (if n < 10 then [char_of (48 + n)] else str_digits (n div 10) @ [char_of (48 + n mod 10)])"
  by pat_completeness auto
termination
  by (relation "measure nat") auto

definition str_int :: "int \<Rightarrow> string" where
  "str_int i = (if i < 0 then CHR ''-'' # str_digits (- i) else str_digits i)"

section \<open>Game tools: the throw parser\<close>

text \<open>\<open>Dice\<close> holds its list of faces; \<open>ClassicDice(f)\<close> is the subclass built from
  \<open>list(range(1, f + 1))\<close>.\<close>

datatype dice = Dice "int list" | ClassicDice "int list"

fun faces :: "dice \<Rightarrow> int list" where
  "faces (Dice fs) = fs"
| "faces (ClassicDice fs) = fs"












section \<open>The world\<close>

text \<open>
  Modelled from the spec: \<open>common.dataio\<close> (the per-guild storage with its
  \<open>execute\<close>, \<open>fetchone\<close> and \<open>fetchall\<close>) is not among the sources. One guild
  is modelled; each call is given the meaning of its SQL statement on the tables
  declared by the \<open>CREATE TABLE\<close> statements of the cogs, an error of the engine being
  raised to the caller. An exception leaves the tables as the statements executed before it
  left them, so every operation returns the world together with its result or error.

  A \<open>discord.Member\<close> is its user id, a channel its channel id. \<open>Sqids().encode\<close> is the
  third-party encoder of integer lists into short strings; it is a component of the world,
  and no statement below depends on which function it is. Its range check (numbers from 0
  to \<open>sys.maxsize\<close>) is not modelled, and the \<open>FOREIGN KEY\<close> clauses of the tables are
  not enforced, as is the default of the engine.
  \<open>datetime.now().timestamp()\<close> reads the clock: the world holds the sequence of readings
  the clock will give and the number of readings taken so far.
\<close>

type_synonym user_id = int
type_synonym channel_id = int

record transaction =
  t_id :: string
  t_timestamp :: rat
  t_amount :: int
  t_reason :: string
  t_user :: user_id

record config =
  Currency :: string
  DailyAmount :: int
  DailyLimit :: int
  DefaultBalance :: int

record betting =
  b_title :: string
  b_choices :: string
  b_message_id :: int
  b_minimal_bet :: int
  b_author_id :: user_id

record bet =
  bet_id :: int
  bet_user :: user_id
  bet_channel :: channel_id
  bet_choice :: string
  bet_amount :: int

record world =
  accounts :: "user_id \<rightharpoonup> int"
  transactions :: "transaction list"
  guild_config :: config
  conditions :: "(string \<times> int) \<rightharpoonup> string"
  last_cleanup :: rat
  bettings :: "channel_id \<rightharpoonup> betting"
  bets :: "bet list"
  members :: "user_id set"
  text_channels :: "channel_id set"
  sqids :: "int list \<Rightarrow> string"
  clock :: "nat \<Rightarrow> rat"
  reads :: nat

text \<open>\<open>guild_config\<close> is what \<open>Economy.get_guild_config\<close> returns, each numeric entry
  read through \<open>int(...)\<close>. \<open>conditions\<close> is keyed by the name and the object id that
  \<open>Condition\<close> joins into its id; its values are the payloads, the JSON encoding on the
  way in and out being left out. \<open>text_channels\<close> are the ids that
  \<open>guild.get_channel\<close> resolves to a text channel or thread.\<close>

definition DEFAULT_CONFIG :: config where
  "DEFAULT_CONFIG =
     \<lparr>Currency = [CHR 0xE2, CHR 0x9C, CHR 0xA6], DailyAmount = 200, DailyLimit = 5000,
      DefaultBalance = 100\<rparr>"

definition TRANSACTION_EXPIRATION_DELAY :: rat where
  "TRANSACTION_EXPIRATION_DELAY = 86400 * 14"

definition TRANSACTION_CLEANUP_INTERVAL :: rat where
  "TRANSACTION_CLEANUP_INTERVAL = 3600"

definition now :: "world \<Rightarrow> rat \<times> world" where
  "now w = (clock w (reads w), w\<lparr>reads := Suc (reads w)\<rparr>)"

definition get_member :: "user_id \<Rightarrow> world \<Rightarrow> user_id option" where
  "get_member u w = (if u \<in> members w then Some u else None)"

section \<open>Economy: transactions\<close>

text \<open>\<open>Transaction.__get_id\<close>.\<close>

definition get_id :: "world \<Rightarrow> rat \<Rightarrow> user_id \<Rightarrow> int \<Rightarrow> string" where
  "get_id w ts u amount = sqids w [py_int ts, u, \<bar>amount\<bar>]"

text \<open>\<open>INSERT OR IGNORE INTO transactions\<close>: \<open>id\<close> is the primary key.\<close>

definition insert_or_ignore_transaction :: "transaction \<Rightarrow> world \<Rightarrow> world" where
  "insert_or_ignore_transaction t w =
     (if t_id t \<in> t_id ` set (transactions w) then w
      else w\<lparr>transactions := transactions w @ [t]\<rparr>)"

text \<open>\<open>Economy.cleanup_transactions\<close>: \<open>DELETE FROM transactions WHERE
  timestamp < ?\<close>.\<close>

definition cleanup_transactions :: "world \<Rightarrow> world" where
  "cleanup_transactions w =
     (case now w of
        (t, w1) \<Rightarrow>
          w1\<lparr>transactions :=
               filter (\<lambda>r. \<not> t_timestamp r < fl (t - TRANSACTION_EXPIRATION_DELAY))
                 (transactions w1)\<rparr>)"

text \<open>\<open>Transaction.__create_if_not_exists\<close>.\<close>

definition create_if_not_exists :: "transaction \<Rightarrow> world \<Rightarrow> world" where
  "create_if_not_exists t w =
     (case now (insert_or_ignore_transaction t w) of
        (checked, w2) \<Rightarrow>
          if fl (last_cleanup w2 + TRANSACTION_CLEANUP_INTERVAL) < checked
          then (case now (cleanup_transactions w2) of
                  (marked, w4) \<Rightarrow> w4\<lparr>last_cleanup := marked\<rparr>)
          else w2)"

text \<open>\<open>Transaction.__init__\<close>; \<open>timestamp or datetime.now().timestamp()\<close> reads the
  clock when the argument is zero.\<close>

definition Transaction :: "user_id \<Rightarrow> int \<Rightarrow> string \<Rightarrow> rat \<Rightarrow> world \<Rightarrow> transaction \<times> world" where
  "Transaction u amount reason timestamp w =
     (case (if timestamp \<noteq> 0 then (timestamp, w) else now w) of
        (ts, w1) \<Rightarrow>
          (let t = \<lparr>t_id = get_id w ts u amount, t_timestamp = ts, t_amount = amount,
                    t_reason = reason, t_user = u\<rparr>
           in (t, create_if_not_exists t w1)))"

section \<open>Economy: accounts\<close>

text \<open>\<open>Economy.get_account\<close>, that is \<open>Account.__init__\<close> and its
  \<open>INSERT OR IGNORE INTO accounts\<close>: \<open>user_id\<close> is the primary key and the column
  constraint \<open>CHECK (balance >= 0)\<close> falls under the same conflict clause. The account
  object is its owner.\<close>

definition get_account :: "user_id \<Rightarrow> world \<Rightarrow> world" where
  "get_account u w =
     (let d = DefaultBalance (guild_config w)
      in if accounts w u = None \<and> 0 \<le> d then w\<lparr>accounts := (accounts w)(u \<mapsto> d)\<rparr> else w)"

text \<open>\<open>Account._get_balance\<close>: subscripting the missing row raises.\<close>

definition get_balance :: "user_id \<Rightarrow> world \<Rightarrow> error + int" where
  "get_balance u w = (case accounts w u of None \<Rightarrow> Inl TypeError | Some b \<Rightarrow> Inr b)"

text \<open>\<open>Account._set_balance\<close>: the \<open>UPDATE\<close> is refused by
  \<open>CHECK (balance >= 0)\<close>.\<close>

definition set_balance :: "user_id \<Rightarrow> int \<Rightarrow> string \<Rightarrow> world \<Rightarrow> (error + transaction) \<times> world" where
  "set_balance u v reason w =
     (case get_balance u w of
        Inl e \<Rightarrow> (Inl e, w)
      | Inr current \<Rightarrow>
          (let delta = v - current
           in if v < 0 then (Inl IntegrityError, w)
              else (case Transaction u delta reason 0 (w\<lparr>accounts := (accounts w)(u \<mapsto> v)\<rparr>) of
                      (t, w') \<Rightarrow> (Inr t, w'))))"

definition Account_set :: "user_id \<Rightarrow> int \<Rightarrow> string \<Rightarrow> world \<Rightarrow> (error + transaction) \<times> world" where
  "Account_set u v reason w =
     (if v < 0 then (Inl ValueError, w) else set_balance u v reason w)"

definition deposit :: "user_id \<Rightarrow> int \<Rightarrow> string \<Rightarrow> world \<Rightarrow> (error + transaction) \<times> world" where
  "deposit u amount reason w =
     (if amount < 0 then (Inl ValueError, w)
      else (case get_balance u w of
              Inl e \<Rightarrow> (Inl e, w)
            | Inr b \<Rightarrow> set_balance u (b + amount) reason w))"

definition withdraw :: "user_id \<Rightarrow> int \<Rightarrow> string \<Rightarrow> world \<Rightarrow> (error + transaction) \<times> world" where
  "withdraw u amount reason w =
     (let amount = (if amount < 0 then \<bar>amount\<bar> else amount)
      in case get_balance u w of
           Inl e \<Rightarrow> (Inl e, w)
         | Inr b \<Rightarrow> set_balance u (b - amount) reason w)"

definition reset :: "user_id \<Rightarrow> world \<Rightarrow> (error + transaction) \<times> world" where
  "reset u w =
     set_balance u (DefaultBalance (guild_config w))
       (''R'' @ [CHR 0xC3, CHR 0xA9] @ ''initialisation du compte'') w"

text \<open>\<open>Account.get_transactions(limit=None)\<close>: the rows of the owner, latest first, each
  rebuilt through the constructor of \<open>Transaction\<close>.\<close>

fun rebuild :: "user_id \<Rightarrow> transaction list \<Rightarrow> world \<Rightarrow> transaction list \<times> world" where
  "rebuild u [] w = ([], w)"
| "rebuild u (r # rs) w =
     (case Transaction u (t_amount r) (t_reason r) (t_timestamp r) w of
        (t, w1) \<Rightarrow> (case rebuild u rs w1 of (ts, w2) \<Rightarrow> (t # ts, w2)))"

definition get_transactions :: "user_id \<Rightarrow> world \<Rightarrow> transaction list \<times> world" where
  "get_transactions u w =
     rebuild u (rev (sort_key t_timestamp (filter (\<lambda>r. t_user r = u) (transactions w)))) w"

text \<open>\<open>Account.cancel\<close>; \<open>Transaction.__eq__\<close> compares the ids.\<close>

definition cancel :: "user_id \<Rightarrow> transaction \<Rightarrow> world \<Rightarrow> (error + transaction) \<times> world" where
  "cancel u t w =
     (case get_transactions u w of
        (own, w1) \<Rightarrow>
          if t_id t \<notin> t_id ` set own then (Inl ValueError, w1)
          else (case get_balance u w1 of
                  Inl e \<Rightarrow> (Inl e, w1)
                | Inr b \<Rightarrow> set_balance u (b - t_amount t) (''Annule '' @ t_id t) w1))"

section \<open>Economy: the daily stipend\<close>

text \<open>\<open>Condition.__init__\<close> with \<open>value=None\<close>, and its \<open>__load\<close>: the stored value if
  the row exists, else the default, which is written by \<open>INSERT OR IGNORE\<close>.\<close>

definition Condition :: "string \<Rightarrow> int \<Rightarrow> string \<Rightarrow> world \<Rightarrow> string \<times> world" where
  "Condition name obj default_value w =
     (case conditions w (name, obj) of
        Some v \<Rightarrow> (v, w)
      | None \<Rightarrow> (default_value, w\<lparr>conditions := (conditions w)((name, obj) \<mapsto> default_value)\<rparr>))"

text \<open>The setter of \<open>Condition.value\<close> and its \<open>save\<close>: an
  \<open>UPDATE\<close> of the row.\<close>

definition Condition_set :: "string \<Rightarrow> int \<Rightarrow> string \<Rightarrow> world \<Rightarrow> world" where
  "Condition_set name obj v w =
     (if conditions w (name, obj) = None then w
      else w\<lparr>conditions := (conditions w)((name, obj) \<mapsto> v)\<rparr>)"

text \<open>The stipend after the reduction of \<open>Economy._bank_daily\<close>, in the float arithmetic of
  the source.\<close>

definition reduced_daily :: "int \<Rightarrow> int \<Rightarrow> int \<Rightarrow> int" where
  "reduced_daily dailyamount dailylimit balance =
     (let ignore_part = fl (fl (1 / 10) * fl (of_int dailylimit))
      in if ignore_part < of_int balance
         then (let redux = fl (fl (fl (of_int balance) - ignore_part) / fl (of_int dailylimit))
               in round_half_even (fl (fl (of_int dailyamount) * fl (1 - redux))))
         else dailyamount)"

datatype daily_reply =
    Unavailable
  | AlreadyClaimed
  | LimitReached
  | AmountTooSmall
  | Claimed transaction

text \<open>\<open>Economy._bank_daily\<close> for a member of the guild; \<open>today\<close> is the date string the
  clock gives.\<close>

definition bank_daily :: "user_id \<Rightarrow> string \<Rightarrow> world \<Rightarrow> (error + daily_reply) \<times> world" where
  "bank_daily user today w0 =
     (let w = get_account user w0;
          cfg = guild_config w;
          dailyamount = DailyAmount cfg;
          dailylimit = DailyLimit cfg
      in if dailyamount \<le> 0 \<or> dailylimit \<le> 0 then (Inr Unavailable, w)
         else
           (case get_balance user w of
              Inl e \<Rightarrow> (Inl e, w)
            | Inr balance \<Rightarrow>
                (let dailyamount = reduced_daily dailyamount dailylimit balance
                 in case Condition ''LastDaily'' user [] w of
                      (v, w1) \<Rightarrow>
                        if v = today then (Inr AlreadyClaimed, w1)
                        else if dailylimit \<le> balance then (Inr LimitReached, w1)
                        else if dailyamount \<le> 0 then (Inr AmountTooSmall, w1)
                        else
                          (case deposit user dailyamount (''Aide quotidienne du '' @ today) w1 of
                             (Inl e, w2) \<Rightarrow> (Inl e, w2)
                           | (Inr trs, w2) \<Rightarrow>
                               (Inr (Claimed trs), Condition_set ''LastDaily'' user today w2)))))"

section \<open>Display helpers\<close>

text \<open>\<open>pretty.bar_chart(value, total, *, lenght=10, use_half_bar=True,
  display_percent=False)\<close>, applied to the list of its positional arguments: only
  \<open>value\<close> and \<open>total\<close> are positional, the other parameters are keyword-only, so a call
  with any other number of positional arguments raises \<open>TypeError\<close>.\<close>

definition bar_body :: "int \<Rightarrow> int \<Rightarrow> string" where
  "bar_body v tot =
     (if tot = 0 then '' ''
      else (let percent = fl (fl (of_int v / of_int tot) * 100);
                nb_bars = fl (percent / fl (100 / 10))
            in concat (replicate (nat (py_int nb_bars)) [CHR 0xE2, CHR 0x96, CHR 0x88]) @
               (if 1 / 2 \<le> nb_bars - of_int \<lfloor>nb_bars\<rfloor> then [CHR 0xE2, CHR 0x96, CHR 0x8C] else [])))"

definition bar_chart :: "int list \<Rightarrow> error + string" where
  "bar_chart args = (case args of [v, tot] \<Rightarrow> Inr (bar_body v tot) | _ \<Rightarrow> Inl TypeError)"

section \<open>Gambling\<close>

definition get_betting :: "channel_id \<Rightarrow> world \<Rightarrow> betting option" where
  "get_betting ch w = bettings w ch"

definition get_bets :: "channel_id \<Rightarrow> world \<Rightarrow> bet list" where
  "get_bets ch w = filter (\<lambda>b. bet_channel b = ch) (bets w)"

definition delete_betting :: "channel_id \<Rightarrow> world \<Rightarrow> world" where
  "delete_betting ch w = w\<lparr>bettings := (bettings w)(ch := None)\<rparr>"

definition delete_all_bets :: "channel_id \<Rightarrow> world \<Rightarrow> world" where
  "delete_all_bets ch w = w\<lparr>bets := filter (\<lambda>b. bet_channel b \<noteq> ch) (bets w)\<rparr>"

text \<open>The table of \<open>Gambling.get_betting_embed\<close>, one row per choice; the title, author
  line and footer of the embed are display only. \<open>highlight\<close> is \<open>highlight_result\<close>.\<close>

definition row_label :: "string option \<Rightarrow> string \<Rightarrow> string" where
  "row_label highlight choice =
     (case highlight of
        None \<Rightarrow> capitalize choice
      | Some h \<Rightarrow> if h = [] then capitalize choice
                  else if h = choice then ''+'' @ capitalize choice
                  else ''-'' @ capitalize choice)"

definition empty_row :: "string option \<Rightarrow> string \<Rightarrow> string \<Rightarrow> string \<times> string \<times> string" where
  "empty_row highlight currency choice =
     (row_label highlight choice,
      (if highlight = None \<or> highlight = Some [] then ''0'' else ''0'' @ currency), [])"

fun embed_rows ::
  "string option \<Rightarrow> string \<Rightarrow> bet list \<Rightarrow> int \<Rightarrow> string list \<Rightarrow> error + (string \<times> string \<times> string) list"
where
  "embed_rows highlight currency bs tot [] = Inr []"
| "embed_rows highlight currency bs tot (choice # choices) =
     (let amount = sum_list (map bet_amount (filter (\<lambda>b. bet_choice b = choice) bs));
          prc = (if tot \<noteq> 0 then fl (fl (of_int amount / of_int tot) * 100) else 0)
      in case bar_chart [amount, tot, 10] of
           Inl e \<Rightarrow> Inl e
         | Inr b \<Rightarrow>
             (let bar = b @ '' '' @ str_int (round_half_even prc) @ ''%'';
                  row = (row_label highlight choice, str_int amount @ currency, bar)
              in case embed_rows highlight currency bs tot choices of
                   Inl e \<Rightarrow> Inl e
                 | Inr rows \<Rightarrow> Inr (row # rows)))"

definition get_betting_embed ::
  "channel_id \<Rightarrow> string option \<Rightarrow> world \<Rightarrow> error + (string \<times> string \<times> string) list"
where
  "get_betting_embed ch highlight w =
     (case get_betting ch w of
        None \<Rightarrow> Inl ValueError
      | Some data \<Rightarrow>
          (let currency = Currency (guild_config w);
               bs = get_bets ch w;
               choices = split_on CHR '','' (b_choices data)
           in if bs = [] then Inr (map (empty_row highlight currency) choices)
              else embed_rows highlight currency bs (sum_list (map bet_amount bs)) choices))"

text \<open>A line of the table of gains: a winner who is no longer a member is listed with the
  stake, a member with the amount deposited.\<close>

datatype gain = Absent user_id int | Gain user_id int

text \<open>The loop of \<open>Gambling.handle_winners\<close> over the sorted winners.\<close>

fun pay_winners :: "string \<Rightarrow> int \<Rightarrow> bet list \<Rightarrow> gain list \<Rightarrow> world \<Rightarrow> (error + gain list) \<times> world" where
  "pay_winners title tot [] table w = (Inr table, w)"
| "pay_winners title tot (b # bs) table w =
     (case get_member (bet_user b) w of
        None \<Rightarrow> pay_winners title tot bs (table @ [Absent (bet_user b) (bet_amount b)]) w
      | Some member \<Rightarrow>
          (case int_truediv (bet_amount b * tot) (bet_amount b) of
             Inl e \<Rightarrow> (Inl e, w)
           | Inr q \<Rightarrow>
               (let amount = py_int q
                in case deposit member amount (''Gains du pari '' @ title) (get_account member w) of
                     (Inl e, w') \<Rightarrow> (Inl e, w')
                   | (Inr trs, w') \<Rightarrow> pay_winners title tot bs (table @ [Gain member amount]) w')))"

datatype gamble_reply =
    NoBets
  | InvalidChannel
  | InvalidChoice
  | NobodyBet
  | NoWinner
  | Results "gain list"
  | NoBetting
  | NotAllowed
  | TimedOut
  | Declined
  | Cancelled
  | Stopped

text \<open>\<open>sorted(winners, key=..., reverse=True)\<close>: descending and stable.\<close>

definition sorted_desc :: "bet list \<Rightarrow> bet list" where
  "sorted_desc bs = rev (sort_key bet_amount (rev bs))"

text \<open>\<open>Gambling.handle_winners\<close>. Messages sent to the channel are the reply.\<close>

definition handle_winners :: "channel_id \<Rightarrow> string \<Rightarrow> world \<Rightarrow> (error + gamble_reply) \<times> world" where
  "handle_winners ch result w =
     (case get_betting ch w of
        None \<Rightarrow> (Inl ValueError, w)
      | Some data \<Rightarrow>
          (let bs = get_bets ch w
           in if bs = [] then (Inr NoBets, w)
              else if ch \<notin> text_channels w then (Inr InvalidChannel, w)
              else
                (let winner = lower result
                 in if winner \<notin> set (split_on CHR '','' (b_choices data)) then (Inr InvalidChoice, w)
                    else
                      (let tot = sum_list (map bet_amount bs)
                       in if tot = 0 then (Inr NobodyBet, w)
                          else
                            (let winners = filter (\<lambda>b. bet_choice b = winner) bs
                             in if winners = [] then
                                  (case get_betting_embed ch (Some winner) w of
                                     Inl e \<Rightarrow> (Inl e, w)
                                   | Inr em \<Rightarrow> (Inr NoWinner, w))
                                else
                                  (case get_betting_embed ch (Some winner) w of
                                     Inl e \<Rightarrow> (Inl e, w)
                                   | Inr em \<Rightarrow>
                                       (case pay_winners (b_title data) tot (sorted_desc winners) [] w of
                                          (Inl e, w') \<Rightarrow> (Inl e, w')
                                        | (Inr table, w') \<Rightarrow> (Inr (Results table), w'))))))))"

text \<open>What a command handler reads from its \<open>discord.Interaction\<close>: the channel, whether
  it is a text channel or thread, the invoking user and whether that user may manage
  messages in the channel.\<close>

record interaction =
  i_channel :: channel_id
  i_text :: bool
  i_user :: user_id
  i_manage_messages :: bool

definition allowed :: "interaction \<Rightarrow> betting \<Rightarrow> world \<Rightarrow> bool" where
  "allowed i data w =
     (i_manage_messages i \<or>
      (get_member (b_author_id data) w \<noteq> None \<and> i_user i = b_author_id data))"

text \<open>The refund loop of \<open>Gambling._cancel_gamble\<close>.\<close>

fun refund_bets :: "string \<Rightarrow> bet list \<Rightarrow> world \<Rightarrow> (error + unit) \<times> world" where
  "refund_bets title [] w = (Inr (), w)"
| "refund_bets title (b # bs) w =
     (case get_member (bet_user b) w of
        None \<Rightarrow> refund_bets title bs w
      | Some member \<Rightarrow>
          (case deposit member (bet_amount b) (''Remboursement du pari '' @ title)
                  (get_account member w) of
             (Inl e, w') \<Rightarrow> (Inl e, w')
           | (Inr trs, w') \<Rightarrow> refund_bets title bs w'))"

text \<open>\<open>Gambling._cancel_gamble\<close>; \<open>view_value\<close> is the answer of the confirmation view
  (\<open>None\<close> on timeout). Deleting the displayed message comes after the tables are
  updated.\<close>

definition cancel_gamble :: "interaction \<Rightarrow> bool option \<Rightarrow> world \<Rightarrow> (error + gamble_reply) \<times> world" where
  "cancel_gamble i view_value w =
     (if \<not> i_text i then (Inr InvalidChannel, w)
      else
        (case get_betting (i_channel i) w of
           None \<Rightarrow> (Inr NoBetting, w)
         | Some data \<Rightarrow>
             if \<not> allowed i data w then (Inr NotAllowed, w)
             else
               (case view_value of
                  None \<Rightarrow> (Inr TimedOut, w)
                | Some False \<Rightarrow> (Inr Declined, w)
                | Some True \<Rightarrow>
                    (let bs = get_bets (i_channel i) w
                     in if bs \<noteq> [] then
                          (case refund_bets (b_title data) bs w of
                             (Inl e, w') \<Rightarrow> (Inl e, w')
                           | (Inr u, w') \<Rightarrow>
                               (Inr Cancelled,
                                delete_all_bets (i_channel i) (delete_betting (i_channel i) w')))
                        else (Inr NobodyBet, w)))))"

text \<open>\<open>Gambling._stop_gamble\<close>, the fetch and unpinning of the displayed message
  apart.\<close>

definition stop_gamble ::
  "interaction \<Rightarrow> string \<Rightarrow> bool option \<Rightarrow> world \<Rightarrow> (error + gamble_reply) \<times> world"
where
  "stop_gamble i result view_value w =
     (if \<not> i_text i then (Inr InvalidChannel, w)
      else
        (case get_betting (i_channel i) w of
           None \<Rightarrow> (Inr NoBetting, w)
         | Some data \<Rightarrow>
             if \<not> allowed i data w then (Inr NotAllowed, w)
             else
               (case view_value of
                  None \<Rightarrow> (Inr TimedOut, w)
                | Some False \<Rightarrow> (Inr Declined, w)
                | Some True \<Rightarrow>
                    if lower result \<notin> set (split_on CHR '','' (b_choices data))
                    then (Inr InvalidChoice, w)
                    else
                      (case handle_winners (i_channel i) result w of
                         (Inl e, w') \<Rightarrow> (Inl e, w')
                       | (Inr r, w') \<Rightarrow>
                           (Inr Stopped,
                            delete_all_bets (i_channel i) (delete_betting (i_channel i) w'))))))"

section \<open>Notions used in the statements\<close>

text \<open>The stored date of the last claim of a user, the empty default where no row exists.\<close>

definition last_daily :: "user_id \<Rightarrow> world \<Rightarrow> string" where
  "last_daily user w = (case conditions w (''LastDaily'', user) of Some v \<Rightarrow> v | None \<Rightarrow> [])"

text \<open>The parts of the world that no operation of the economy writes.\<close>

definition same_env :: "world \<Rightarrow> world \<Rightarrow> bool" where
  "same_env w w' =
     (guild_config w' = guild_config w \<and> conditions w' = conditions w \<and>
      bettings w' = bettings w \<and> bets w' = bets w \<and> members w' = members w \<and>
      text_channels w' = text_channels w \<and> sqids w' = sqids w \<and> clock w' = clock w)"

text \<open>A row that the retention sweep keeps at every reading of the clock.\<close>

definition unexpired :: "world \<Rightarrow> transaction \<Rightarrow> bool" where
  "unexpired w r = (\<forall>k. \<not> t_timestamp r < fl (clock w k - TRANSACTION_EXPIRATION_DELAY))"


text \<open>The last sweep is less than the cleanup interval old at every reading of the clock.\<close>

definition no_sweep_due :: "world \<Rightarrow> bool" where
  "no_sweep_due w = (\<forall>k. \<not> fl (last_cleanup w + TRANSACTION_CLEANUP_INTERVAL) < clock w k)"

text \<open>The primary keys stored in the table of transactions.\<close>

definition stored_ids :: "world \<Rightarrow> string set" where
  "stored_ids w = t_id ` set (transactions w)"

text \<open>The timestamp a new \<open>Transaction\<close> takes.\<close>

definition stamp :: "rat \<Rightarrow> world \<Rightarrow> rat" where
  "stamp timestamp w = (if timestamp \<noteq> 0 then timestamp else clock w (reads w))"

text \<open>What building one \<open>Transaction\<close> does to the world: the row is appended
  unless its id is stored, the sweep removes only expired rows, and nothing is removed
  when no sweep is due.\<close>

definition recorded :: "world \<Rightarrow> transaction \<Rightarrow> world \<Rightarrow> bool" where
  "recorded w t w' =
     (same_env w w' \<and>
      (\<exists>P. transactions w' =
              filter P (if t_id t \<in> stored_ids w then transactions w else transactions w @ [t]) \<and>
           (\<forall>r. unexpired w r \<longrightarrow> P r)) \<and>
      (no_sweep_due w \<longrightarrow>
         transactions w' = (if t_id t \<in> stored_ids w then transactions w else transactions w @ [t]) \<and>
         last_cleanup w' = last_cleanup w))"

text \<open>The stakes of a user among some bets.\<close>

definition staked :: "user_id \<Rightarrow> bet list \<Rightarrow> int" where
  "staked u bs = sum_list (map bet_amount (filter (\<lambda>b. bet_user b = u) bs))"

text \<open>The balance of a user once \<open>get_account\<close> has run.\<close>

definition opened_balance :: "world \<Rightarrow> user_id \<Rightarrow> int" where
  "opened_balance w u = (case accounts w u of Some b \<Rightarrow> b | None \<Rightarrow> DefaultBalance (guild_config w))"

text \<open>The reading of the clock that the sweep of a new \<open>Transaction\<close> uses, when it
  runs: the one that follows the check of the cleanup interval, which is the second
  reading from now when the timestamp is given and the third when the clock stamps the
  transaction.\<close>

definition sweep_reading :: "rat \<Rightarrow> world \<Rightarrow> rat" where
  "sweep_reading timestamp w = clock w (reads w + (if timestamp \<noteq> 0 then 1 else 2))"

text \<open>A row stored under the id that \<open>__get_id\<close> derives from it, with a timestamp
  other than zero: what every row written by the constructor of \<open>Transaction\<close>
  is.\<close>

definition consistent_row :: "world \<Rightarrow> transaction \<Rightarrow> bool" where
  "consistent_row w r =
     (t_timestamp r \<noteq> 0 \<and> t_id r = get_id w (t_timestamp r) (t_user r) (t_amount r))"

text \<open>The rows of a user.\<close>

definition own_rows :: "user_id \<Rightarrow> world \<Rightarrow> transaction list" where
  "own_rows u w = filter (\<lambda>r. t_user r = u) (transactions w)"

text \<open>The number of bets of a user among some bets.\<close>

definition wins :: "user_id \<Rightarrow> bet list \<Rightarrow> int" where
  "wins u bs = int (length (filter (\<lambda>b. bet_user b = u) bs))"

section \<open>Example worlds\<close>

text \<open>A toy encoder (the numbers in base ten, each followed by a full stop) and a guild
  with two members, used where a statement is instantiated. Its clock advances by one
  second at each of the first nine readings.\<close>

definition demo_sqids :: "int list \<Rightarrow> string" where
  "demo_sqids ns = concat (map (\<lambda>n. str_int n @ ''.'') ns)"

definition demo_world :: world where
  "demo_world =
     \<lparr>accounts = [1 \<mapsto> 30, 2 \<mapsto> 70], transactions = [], guild_config = DEFAULT_CONFIG,
      conditions = Map.empty, last_cleanup = 0, bettings = Map.empty, bets = [],
      members = {1, 2}, text_channels = {7}, sqids = demo_sqids,
      clock = (\<lambda>n. 1000 + of_nat (min n 9)), reads = 0\<rparr>"

text \<open>A session on channel 7 with the stakes 30 on heads and 70 on tails.\<close>

definition pari_world :: world where
  "pari_world =
     demo_world\<lparr>
       bettings := [7 \<mapsto> \<lparr>b_title = ''Match'', b_choices = ''heads,tails'', b_message_id = 1,
                           b_minimal_bet = 1, b_author_id = 1\<rparr>],
       bets := [\<lparr>bet_id = 1, bet_user = 1, bet_channel = 7, bet_choice = ''heads'', bet_amount = 30\<rparr>,
                \<lparr>bet_id = 2, bet_user = 2, bet_channel = 7, bet_choice = ''tails'', bet_amount = 70\<rparr>]\<rparr>"

text \<open>Two balances near and above the daily limit, and a guild whose stipend is one credit.\<close>

definition rich_world :: world where
  "rich_world = demo_world\<lparr>accounts := [1 \<mapsto> 6000, 2 \<mapsto> 4000]\<rparr>"

definition small_world :: world where
  "small_world = rich_world\<lparr>guild_config := DEFAULT_CONFIG\<lparr>DailyAmount := 1\<rparr>\<rparr>"

text \<open>The session of \<open>pari_world\<close> after user 2 has left the guild.\<close>

definition left_world :: world where
  "left_world = pari_world\<lparr>members := {1}\<rparr>"

text \<open>An interaction of user 1, the author of the session, on channel 7.\<close>

definition auteur :: interaction where
  "auteur = \<lparr>i_channel = 7, i_text = True, i_user = 1, i_manage_messages = False\<rparr>"

text \<open>A stored deposit of 5 to user 1 and a world whose clock stays within the second of that
  row.\<close>

definition busy_row :: transaction where
  "busy_row =
     \<lparr>t_id = demo_sqids [1000, 1, 5], t_timestamp = 1000 + 1 / 4, t_amount = 5,
      t_reason = ''Don'', t_user = 1\<rparr>"

definition busy_world :: world where
  "busy_world =
     demo_world\<lparr>transactions := [busy_row], clock := (\<lambda>n. 1000 + of_nat (min n 3) / 4),
       reads := 2\<rparr>"


text \<open>A deposit of 20 to user 1 stamped 100, alone in the table of a guild whose clock reads
  1000 and later.\<close>

definition old_row :: transaction where
  "old_row = \<lparr>t_id = demo_sqids [100, 1, 20], t_timestamp = 100, t_amount = 20,
              t_reason = ''Don'', t_user = 1\<rparr>"

definition books_world :: world where
  "books_world = demo_world\<lparr>transactions := [old_row]\<rparr>"

text \<open>The same row in a guild whose clock reads two million, more than fourteen days later,
  the last sweep dating from the row.\<close>

definition stale_world :: world where
  "stale_world =
     demo_world\<lparr>transactions := [old_row], last_cleanup := 100,
       clock := (\<lambda>n. 2000000 + of_nat (min n 9))\<rparr>"

text \<open>A recent row of user 2 beside the old row of user 1.\<close>

definition other_row :: transaction where
  "other_row = \<lparr>t_id = demo_sqids [1999999, 2, 20], t_timestamp = 1999999, t_amount = 20,
                t_reason = ''Don'', t_user = 2\<rparr>"

definition shared_world :: world where
  "shared_world = stale_world\<lparr>transactions := [old_row, other_row]\<rparr>"

section \<open>Economy: rejected operations\<close>

text \<open>
  Claim C7. \<open>Account.set\<close> with a negative target and \<open>Account.deposit\<close> with a negative
  amount raise \<open>ValueError\<close>, and the world they leave is the world they were called in: the
  stored balance is unchanged and no transaction is recorded.
\<close>

theorem set_deposit_reject_negative:
  "(v < 0 \<longrightarrow> Account_set u v reason w = (Inl ValueError, w)) \<and>
   (a < 0 \<longrightarrow> deposit u a reason w = (Inl ValueError, w))"
  by (simp add: Account_set_def deposit_def)

theorem set_deposit_reject_negative_witness:
  "(- 5 :: int) < 0 \<and> Account_set 1 (- 5) ''x'' demo_world = (Inl ValueError, demo_world) \<and>
   (- 3 :: int) < 0 \<and> deposit 1 (- 3) ''y'' demo_world = (Inl ValueError, demo_world)"
  using set_deposit_reject_negative [of "- 5" 1 "''x''" demo_world "- 3"]
    set_deposit_reject_negative [of "- 5" 1 "''y''" demo_world "- 3"]
  by simp

text \<open>
  Claim C8. \<open>Account.withdraw\<close> makes no check of its own: with a balance \<open>b\<close> and an
  amount of magnitude above \<open>b\<close> the \<open>UPDATE\<close> of the balance is refused by the column
  constraint \<open>CHECK (balance >= 0)\<close>, the error of the engine is raised, and the world is
  left as it was: the balance is still \<open>b\<close> and no transaction is recorded.
\<close>

theorem withdraw_underfunded:
  "accounts w u = Some b \<Longrightarrow> b < \<bar>a\<bar> \<Longrightarrow> withdraw u a reason w = (Inl IntegrityError, w)"
  by (auto simp add: withdraw_def get_balance_def set_balance_def Let_def)

theorem withdraw_underfunded_witness:
  "accounts demo_world 1 = Some 30 \<and> (30 :: int) < \<bar>- 31\<bar> \<and>
   withdraw 1 (- 31) ''x'' demo_world = (Inl IntegrityError, demo_world)"
proof -
  have b: "accounts demo_world 1 = Some 30"
    by (simp add: demo_world_def)
  have lt: "(30 :: int) < \<bar>- 31\<bar>"
    by simp
  from withdraw_underfunded [OF b lt] b lt show ?thesis
    by simp
qed

section \<open>Economy: opening an account\<close>

text \<open>
  Claim C10. \<open>Economy.get_account\<close> leaves an existing row alone whatever the configured
  default balance now is; where the user has no row it stores the current default balance
  (a non-negative number, as the configuration command and \<open>DEFAULT_CONFIG\<close> make it);
  it records no transaction; and a second call changes nothing more.
\<close>

theorem get_account_idempotent:
  "(accounts w u = Some b \<longrightarrow>
      get_account u (w\<lparr>guild_config := cfg\<rparr>) = w\<lparr>guild_config := cfg\<rparr>) \<and>
   (accounts w u = None \<and> 0 \<le> DefaultBalance (guild_config w) \<longrightarrow>
      accounts (get_account u w) = (accounts w)(u \<mapsto> DefaultBalance (guild_config w))) \<and>
   transactions (get_account u w) = transactions w \<and>
   get_account u (get_account u w) = get_account u w"
  by (simp add: get_account_def Let_def)

theorem get_account_idempotent_witness:
  "accounts demo_world 1 = Some 30 \<and>
   accounts (get_account 1 (demo_world\<lparr>guild_config := DEFAULT_CONFIG\<lparr>DefaultBalance := 500\<rparr>\<rparr>)) 1
     = Some 30 \<and>
   accounts demo_world 3 = None \<and> 0 \<le> DefaultBalance (guild_config demo_world) \<and>
   accounts (get_account 3 demo_world) 3 = Some 100"
  using get_account_idempotent
      [of demo_world 1 30 "DEFAULT_CONFIG\<lparr>DefaultBalance := 500\<rparr>"]
    get_account_idempotent [of demo_world 3 0 DEFAULT_CONFIG]
  by (simp add: demo_world_def DEFAULT_CONFIG_def)

section \<open>Game tools: properties of the throw parser\<close>



























section \<open>Gambling: resolution\<close>

lemma split_on_nonempty: "split_on c xs \<noteq> []"
  by (induction xs) (auto split: list.splits)

lemma embed_rows_raises: "choices \<noteq> [] \<Longrightarrow> embed_rows h cur bs tot choices = Inl TypeError"
  by (cases choices) (simp_all add: bar_chart_def Let_def)

lemma get_betting_embed_raises:
  "get_betting ch w = Some data \<Longrightarrow> get_bets ch w \<noteq> [] \<Longrightarrow> get_betting_embed ch h w = Inl TypeError"
  by (simp add: get_betting_embed_def Let_def embed_rows_raises split_on_nonempty)

text \<open>
  Claim C1. The claim has every winning bettor receive a deposit of the total pot. On the
  code no deposit is made: once a session has a bet, a resolvable channel, a declared
  winning choice and a pot other than zero, \<open>handle_winners\<close> builds the result embed
  before the payout loop, \<open>get_betting_embed\<close> calls \<open>pretty.bar_chart(amount, total, 10)\<close>
  with three positional arguments, and the \<open>TypeError\<close> of that call leaves
  \<open>handle_winners\<close> with the world unchanged.
\<close>

theorem handle_winners_raises:
  assumes "get_betting ch w = Some data" and "get_bets ch w \<noteq> []" and "ch \<in> text_channels w"
    and "lower result \<in> set (split_on CHR '','' (b_choices data))"
    and "sum_list (map bet_amount (get_bets ch w)) \<noteq> 0"
  shows "handle_winners ch result w = (Inl TypeError, w)"
  using assms by (simp add: handle_winners_def Let_def get_betting_embed_raises)

theorem handle_winners_raises_witness:
  "get_bets 7 pari_world =
     [\<lparr>bet_id = 1, bet_user = 1, bet_channel = 7, bet_choice = ''heads'', bet_amount = 30\<rparr>,
      \<lparr>bet_id = 2, bet_user = 2, bet_channel = 7, bet_choice = ''tails'', bet_amount = 70\<rparr>] \<and>
   handle_winners 7 ''heads'' pari_world = (Inl TypeError, pari_world) \<and>
   accounts pari_world 1 = Some 30"
proof -
  have b: "get_betting 7 pari_world = Some \<lparr>b_title = ''Match'', b_choices = ''heads,tails'', b_message_id = 1,
                           b_minimal_bet = 1, b_author_id = 1\<rparr>"
    by (simp add: get_betting_def pari_world_def)
  have g: "get_bets 7 pari_world =
     [\<lparr>bet_id = 1, bet_user = 1, bet_channel = 7, bet_choice = ''heads'', bet_amount = 30\<rparr>,
      \<lparr>bet_id = 2, bet_user = 2, bet_channel = 7, bet_choice = ''tails'', bet_amount = 70\<rparr>]"
    by (simp add: get_bets_def pari_world_def)
  have c: "7 \<in> text_channels pari_world"
    by (simp add: pari_world_def demo_world_def)
  have l: "lower ''heads'' \<in> set (split_on CHR '','' ''heads,tails'')"
    by code_simp
  have a: "accounts pari_world 1 = Some 30"
    by (simp add: pari_world_def demo_world_def)
  from handle_winners_raises [OF b _ c, of "''heads''"] g l a show ?thesis
    by simp
qed

section \<open>Economy: the refused stipend\<close>

lemma get_account_other:
  "conditions (get_account u w) = conditions w \<and> guild_config (get_account u w) = guild_config w \<and>
   transactions (get_account u w) = transactions w"
  by (simp add: get_account_def Let_def)

lemma reduced_daily_over_limit: "reduced_daily 200 5000 6000 = - 20"
  by code_simp

lemma reduced_daily_one_credit: "reduced_daily 1 5000 4000 = 0"
  by code_simp

text \<open>
  Claim C6, as amended. With the stipend enabled, whenever the reduced amount is zero or
  less for the balance of the claiming user, \<open>/daily\<close> is refused, the balances and the
  transactions are as the opening of the account left them, and the stored last-claim date
  keeps its value (the empty default where there was none). The refusal is the "amount too
  small" one when the user has not claimed today and the balance is below the daily limit;
  the "already claimed" refusal, then the "limit reached" refusal, come first.
\<close>

theorem daily_refused:
  assumes "0 < DailyAmount (guild_config w)" and "0 < DailyLimit (guild_config w)"
    and "accounts (get_account user w) user = Some balance"
    and "reduced_daily (DailyAmount (guild_config w)) (DailyLimit (guild_config w)) balance \<le> 0"
  shows "\<exists>w'. bank_daily user today w =
           (Inr (if last_daily user w = today then AlreadyClaimed
                 else if DailyLimit (guild_config w) \<le> balance then LimitReached
                 else AmountTooSmall), w') \<and>
         accounts w' = accounts (get_account user w) \<and>
         transactions w' = transactions w \<and>
         conditions w' (''LastDaily'', user) = Some (last_daily user w)"
  using assms
  by (cases "conditions w (''LastDaily'', user)")
     (simp_all add: bank_daily_def Let_def get_account_other get_balance_def Condition_def
        last_daily_def)

theorem daily_refused_witness:
  "0 < DailyAmount (guild_config small_world) \<and> 0 < DailyLimit (guild_config small_world) \<and>
   accounts (get_account 2 small_world) 2 = Some 4000 \<and>
   reduced_daily (DailyAmount (guild_config small_world)) (DailyLimit (guild_config small_world)) 4000 \<le> 0 \<and>
   fst (bank_daily 2 ''03.11.2026'' small_world) = Inr AmountTooSmall \<and>
   accounts (snd (bank_daily 2 ''03.11.2026'' small_world)) 2 = Some 4000 \<and>
   conditions (snd (bank_daily 2 ''03.11.2026'' small_world)) (''LastDaily'', 2) = Some []"
proof -
  have c: "guild_config small_world = DEFAULT_CONFIG\<lparr>DailyAmount := 1\<rparr>"
    by (simp add: small_world_def)
  have a: "0 < DailyAmount (guild_config small_world)" "0 < DailyLimit (guild_config small_world)"
    by (simp_all add: c DEFAULT_CONFIG_def)
  have g: "get_account 2 small_world = small_world"
    by (simp add: get_account_def small_world_def rich_world_def)
  have b: "accounts (get_account 2 small_world) 2 = Some 4000"
    unfolding g by (simp add: small_world_def rich_world_def)
  have r: "reduced_daily (DailyAmount (guild_config small_world))
             (DailyLimit (guild_config small_world)) 4000 \<le> 0"
    by (simp add: c DEFAULT_CONFIG_def reduced_daily_one_credit)
  have l: "last_daily 2 small_world = []"
    by (simp add: last_daily_def small_world_def rich_world_def demo_world_def)
  have lim: "\<not> DailyLimit (guild_config small_world) \<le> 4000"
    by (simp add: c DEFAULT_CONFIG_def)
  from daily_refused [OF a b r, of "''03.11.2026''"] obtain w' where
    "bank_daily 2 ''03.11.2026'' small_world = (Inr AmountTooSmall, w')"
    "accounts w' = accounts (get_account 2 small_world)"
    "conditions w' (''LastDaily'', 2) = Some []"
    using l lim by auto
  then show ?thesis
    using a b r by simp
qed

text \<open>The claim as first stated promises the "amount too small" refusal whenever the
  reduced amount is zero or less. With the default stipend of 200 under the limit of 5000,
  a balance of 6000 reduces the amount to -20, and the refusal is the "limit reached" one.\<close>

theorem daily_refused_counterexample:
  "reduced_daily 200 5000 6000 \<le> 0 \<and>
   fst (bank_daily 1 ''03.11.2026'' rich_world) = Inr LimitReached \<and>
   fst (bank_daily 1 ''03.11.2026'' rich_world) \<noteq> Inr AmountTooSmall"
  by (simp add: reduced_daily_over_limit bank_daily_def Let_def rich_world_def demo_world_def
      DEFAULT_CONFIG_def get_account_def get_balance_def Condition_def)

section \<open>Economy: recording a transaction\<close>

lemma same_env_refl: "same_env w w"
  by (simp add: same_env_def)

lemma same_env_trans: "same_env w w1 \<Longrightarrow> same_env w1 w2 \<Longrightarrow> same_env w w2"
  by (simp add: same_env_def)

lemma insert_rows:
  "transactions (insert_or_ignore_transaction t w) =
     (if t_id t \<in> stored_ids w then transactions w else transactions w @ [t])"
  by (simp add: insert_or_ignore_transaction_def stored_ids_def)

lemma insert_keeps:
  "accounts (insert_or_ignore_transaction t w) = accounts w \<and>
   same_env w (insert_or_ignore_transaction t w) \<and>
   last_cleanup (insert_or_ignore_transaction t w) = last_cleanup w \<and>
   reads (insert_or_ignore_transaction t w) = reads w"
  by (simp add: insert_or_ignore_transaction_def same_env_def)

lemma create_keeps:
  "accounts (create_if_not_exists t w) = accounts w \<and> same_env w (create_if_not_exists t w)"
  by (simp add: create_if_not_exists_def same_env_def now_def insert_or_ignore_transaction_def
      cleanup_transactions_def split: prod.splits if_splits)

lemma create_rows:
  "\<exists>P. transactions (create_if_not_exists t w) = filter P (transactions (insert_or_ignore_transaction t w)) \<and>
       (\<forall>r. unexpired w r \<longrightarrow> P r)"
proof (cases "fl (last_cleanup w + TRANSACTION_CLEANUP_INTERVAL) < clock w (reads w)")
  case True
  let ?P = "\<lambda>r. \<not> t_timestamp r < fl (clock w (Suc (reads w)) - TRANSACTION_EXPIRATION_DELAY)"
  have "transactions (create_if_not_exists t w) = filter ?P (transactions (insert_or_ignore_transaction t w))"
    using True insert_keeps[of t w]
    by (simp add: create_if_not_exists_def now_def cleanup_transactions_def same_env_def)
  moreover have "\<forall>r. unexpired w r \<longrightarrow> ?P r"
    by (simp add: unexpired_def)
  ultimately show ?thesis by blast
next
  case False
  have "transactions (create_if_not_exists t w) = filter (\<lambda>r. True) (transactions (insert_or_ignore_transaction t w))"
    using False insert_keeps[of t w]
    by (simp add: create_if_not_exists_def now_def same_env_def)
  then show ?thesis by blast
qed

lemma create_quiet:
  "no_sweep_due w \<Longrightarrow>
   transactions (create_if_not_exists t w) = transactions (insert_or_ignore_transaction t w) \<and>
   last_cleanup (create_if_not_exists t w) = last_cleanup w"
  using insert_keeps[of t w]
  by (simp add: create_if_not_exists_def now_def same_env_def no_sweep_due_def)

lemma Transaction_object:
  "fst (Transaction u a reason ts w) =
     \<lparr>t_id = get_id w (stamp ts w) u a, t_timestamp = stamp ts w, t_amount = a,
      t_reason = reason, t_user = u\<rparr>"
  by (simp add: Transaction_def now_def stamp_def Let_def)

lemma Transaction_keeps:
  "accounts (snd (Transaction u a reason ts w)) = accounts w \<and>
   same_env w (snd (Transaction u a reason ts w))"
proof -
  have "same_env w (snd (now w))" "accounts (snd (now w)) = accounts w"
    by (simp_all add: now_def same_env_def)
  then show ?thesis
    using create_keeps[of "fst (Transaction u a reason ts w)" "snd (now w)"]
      create_keeps[of "fst (Transaction u a reason ts w)" w]
    by (auto simp add: Transaction_def Let_def now_def same_env_def split: if_splits)
qed

lemma now_rows: "transactions (snd (now w)) = transactions w \<and> stored_ids (snd (now w)) = stored_ids w
   \<and> last_cleanup (snd (now w)) = last_cleanup w \<and> clock (snd (now w)) = clock w"
  by (simp add: now_def stored_ids_def)

lemma unexpired_cong: "clock w' = clock w \<Longrightarrow> unexpired w' r = unexpired w r"
  by (simp add: unexpired_def)

lemma no_sweep_due_cong:
  "clock w' = clock w \<Longrightarrow> last_cleanup w' = last_cleanup w \<Longrightarrow> no_sweep_due w' = no_sweep_due w"
  by (simp add: no_sweep_due_def)

lemma Transaction_rows:
  "\<exists>P. transactions (snd (Transaction u a reason ts w)) =
          filter P (if t_id (fst (Transaction u a reason ts w)) \<in> stored_ids w then transactions w
                    else transactions w @ [fst (Transaction u a reason ts w)]) \<and>
       (\<forall>r. unexpired w r \<longrightarrow> P r)"
proof -
  let ?t = "fst (Transaction u a reason ts w)"
  let ?w1 = "if ts \<noteq> 0 then w else snd (now w)"
  have s: "snd (Transaction u a reason ts w) = create_if_not_exists ?t ?w1"
    by (simp add: Transaction_def Let_def now_def)
  have r: "transactions ?w1 = transactions w" "stored_ids ?w1 = stored_ids w" "clock ?w1 = clock w"
    using now_rows[of w] by auto
  from create_rows[of ?t ?w1] obtain P where
    P: "transactions (create_if_not_exists ?t ?w1) = filter P (transactions (insert_or_ignore_transaction ?t ?w1))"
      "\<forall>r. unexpired ?w1 r \<longrightarrow> P r" by blast
  have "\<forall>r. unexpired w r \<longrightarrow> P r"
    using P(2) unexpired_cong[OF r(3)] by simp
  moreover have "transactions (snd (Transaction u a reason ts w)) =
     filter P (if t_id ?t \<in> stored_ids w then transactions w else transactions w @ [?t])"
    unfolding s P(1) insert_rows r ..
  ultimately show ?thesis by blast
qed

lemma Transaction_quiet:
  assumes "no_sweep_due w"
  shows "transactions (snd (Transaction u a reason ts w)) =
          (if t_id (fst (Transaction u a reason ts w)) \<in> stored_ids w then transactions w
           else transactions w @ [fst (Transaction u a reason ts w)]) \<and>
         last_cleanup (snd (Transaction u a reason ts w)) = last_cleanup w"
proof -
  let ?t = "fst (Transaction u a reason ts w)"
  let ?w1 = "if ts \<noteq> 0 then w else snd (now w)"
  have s: "snd (Transaction u a reason ts w) = create_if_not_exists ?t ?w1"
    by (simp add: Transaction_def Let_def now_def)
  have r: "transactions ?w1 = transactions w" "stored_ids ?w1 = stored_ids w" "clock ?w1 = clock w"
    "last_cleanup ?w1 = last_cleanup w"
    using now_rows[of w] by auto
  have "no_sweep_due ?w1" using assms no_sweep_due_cong[OF r(3) r(4)] by simp
  from create_quiet[OF this, of ?t] show ?thesis
    unfolding s insert_rows r by simp
qed

lemma set_balance_ok:
  assumes "accounts w u = Some cur" and "0 \<le> v"
  shows "\<exists>t w'. set_balance u v reason w = (Inr t, w') \<and>
           t = \<lparr>t_id = get_id w (clock w (reads w)) u (v - cur), t_timestamp = clock w (reads w),
                t_amount = v - cur, t_reason = reason, t_user = u\<rparr> \<and>
           accounts w' = (accounts w)(u \<mapsto> v) \<and> recorded w t w'"
proof -
  let ?wa = "w\<lparr>accounts := (accounts w)(u \<mapsto> v)\<rparr>"
  let ?T = "Transaction u (v - cur) reason 0 ?wa"
  have e: "stored_ids ?wa = stored_ids w" "transactions ?wa = transactions w" "clock ?wa = clock w"
    "last_cleanup ?wa = last_cleanup w" "same_env w ?wa" "reads ?wa = reads w" "sqids ?wa = sqids w"
    by (simp_all add: stored_ids_def same_env_def)
  have sb: "set_balance u v reason w = (Inr (fst ?T), snd ?T)"
    using assms by (simp add: set_balance_def get_balance_def Let_def split: prod.splits)
  have obj: "fst ?T = \<lparr>t_id = get_id w (clock w (reads w)) u (v - cur), t_timestamp = clock w (reads w),
                t_amount = v - cur, t_reason = reason, t_user = u\<rparr>"
    by (simp add: Transaction_object stamp_def get_id_def)
  have acc: "accounts (snd ?T) = (accounts w)(u \<mapsto> v)"
    using Transaction_keeps[of u "v - cur" reason 0 ?wa] by simp
  have env: "same_env w (snd ?T)"
    using Transaction_keeps[of u "v - cur" reason 0 ?wa] e(5) same_env_trans by blast
  have rows: "\<exists>P. transactions (snd ?T) =
              filter P (if t_id (fst ?T) \<in> stored_ids w then transactions w else transactions w @ [fst ?T]) \<and>
           (\<forall>r. unexpired w r \<longrightarrow> P r)"
    using Transaction_rows[of u "v - cur" reason 0 ?wa]
    unfolding unexpired_cong[OF e(3)] e(1) e(2) .
  have quiet: "no_sweep_due w \<longrightarrow>
         transactions (snd ?T) = (if t_id (fst ?T) \<in> stored_ids w then transactions w else transactions w @ [fst ?T]) \<and>
         last_cleanup (snd ?T) = last_cleanup w"
    using Transaction_quiet[of ?wa u "v - cur" reason 0]
    unfolding no_sweep_due_cong[OF e(3) e(4)] e(1) e(2) e(4) by blast
  have "recorded w (fst ?T) (snd ?T)"
    unfolding recorded_def using env rows quiet by blast
  then show ?thesis using sb obj acc by simp
qed

lemma deposit_ok:
  assumes "accounts w u = Some b" and "0 \<le> a" and "0 \<le> b"
  shows "\<exists>t w'. deposit u a reason w = (Inr t, w') \<and>
           t = \<lparr>t_id = get_id w (clock w (reads w)) u a, t_timestamp = clock w (reads w),
                t_amount = a, t_reason = reason, t_user = u\<rparr> \<and>
           accounts w' = (accounts w)(u \<mapsto> b + a) \<and> recorded w t w'"
proof -
  have d: "deposit u a reason w = set_balance u (b + a) reason w"
    using assms by (simp add: deposit_def get_balance_def)
  from set_balance_ok[OF assms(1), of "b + a" reason] assms show ?thesis
    unfolding d by simp
qed


section \<open>Gambling: cancellation\<close>

lemma staked_absent: "u \<notin> bet_user ` set bs \<Longrightarrow> staked u bs = 0"
  by (induction bs) (auto simp: staked_def)

lemma get_account_opening:
  "0 \<le> DefaultBalance (guild_config w) \<Longrightarrow>
   accounts (get_account u w) = (accounts w)(u \<mapsto> opened_balance w u) \<and> same_env w (get_account u w)"
  by (auto simp: get_account_def opened_balance_def Let_def same_env_def split: option.splits)

lemma refund_step:
  assumes d: "0 \<le> DefaultBalance (guild_config w)"
    and nn: "\<forall>u b. accounts w u = Some b \<longrightarrow> 0 \<le> b"
    and a: "0 \<le> a"
  shows "\<exists>t w'. deposit m a reason (get_account m w) = (Inr t, w') \<and>
           accounts w' = (accounts w)(m \<mapsto> opened_balance w m + a) \<and> same_env w w'"
proof -
  let ?w0 = "get_account m w"
  have g: "accounts ?w0 = (accounts w)(m \<mapsto> opened_balance w m)" "same_env w ?w0"
    using get_account_opening[OF d, of m] by auto
  have o: "0 \<le> opened_balance w m"
    using d nn by (auto simp: opened_balance_def split: option.splits)
  have "accounts ?w0 m = Some (opened_balance w m)" using g by simp
  from deposit_ok[OF this a o, of reason] obtain t w' where
    r: "deposit m a reason ?w0 = (Inr t, w')" "accounts w' = (accounts ?w0)(m \<mapsto> opened_balance w m + a)"
      "recorded ?w0 t w'" by blast
  have "same_env w w'" using r(3) g(2) same_env_trans by (auto simp: recorded_def)
  then show ?thesis using r g by auto
qed

lemma refund_bets_ok:
  assumes "\<forall>b \<in> set bs. 0 \<le> bet_amount b"
    and "0 \<le> DefaultBalance (guild_config w)"
    and "\<forall>u b. accounts w u = Some b \<longrightarrow> 0 \<le> b"
  shows "\<exists>w'. refund_bets title bs w = (Inr (), w') \<and> same_env w w' \<and>
           (\<forall>u. accounts w' u =
                  (if u \<in> members w \<and> u \<in> bet_user ` set bs
                   then Some (opened_balance w u + staked u bs) else accounts w u))"
  using assms
proof (induction bs arbitrary: w)
  case Nil
  then show ?case by (simp add: same_env_refl)
next
  case (Cons b bs)
  show ?case
  proof (cases "bet_user b \<in> members w")
    case False
    from Cons.IH[of w] Cons.prems obtain w' where
      r: "refund_bets title bs w = (Inr (), w')" "same_env w w'"
        "\<forall>u. accounts w' u = (if u \<in> members w \<and> u \<in> bet_user ` set bs
                   then Some (opened_balance w u + staked u bs) else accounts w u)" by auto
    have "\<forall>u. u \<in> members w \<longrightarrow> staked u (b # bs) = staked u bs"
      using False by (auto simp: staked_def)
    then show ?thesis using r False by (auto simp: get_member_def)
  next
    case True
    let ?m = "bet_user b"
    let ?reason = "''Remboursement du pari '' @ title"
    from refund_step[OF Cons.prems(2) Cons.prems(3), of "bet_amount b" ?m ?reason] Cons.prems(1)
    obtain t w1 where
      s: "deposit ?m (bet_amount b) ?reason (get_account ?m w) = (Inr t, w1)"
        "accounts w1 = (accounts w)(?m \<mapsto> opened_balance w ?m + bet_amount b)" "same_env w w1" by auto
    have o: "0 \<le> opened_balance w ?m"
      using Cons.prems by (auto simp: opened_balance_def split: option.splits)
    have p1: "\<forall>b \<in> set bs. 0 \<le> bet_amount b" using Cons.prems by simp
    have p2: "0 \<le> DefaultBalance (guild_config w1)" using s(3) Cons.prems by (simp add: same_env_def)
    have p3: "\<forall>u b. accounts w1 u = Some b \<longrightarrow> 0 \<le> b"
      using s(2) Cons.prems o by auto
    from Cons.IH[OF p1 p2 p3] obtain w' where
      r: "refund_bets title bs w1 = (Inr (), w')" "same_env w1 w'"
        "\<forall>u. accounts w' u = (if u \<in> members w1 \<and> u \<in> bet_user ` set bs
                   then Some (opened_balance w1 u + staked u bs) else accounts w1 u)" by auto
    have m: "members w1 = members w" "guild_config w1 = guild_config w"
      using s(3) by (simp_all add: same_env_def)
    have op: "\<forall>u. opened_balance w1 u = (if u = ?m then opened_balance w ?m + bet_amount b else opened_balance w u)"
      using s(2) m by (simp add: opened_balance_def split: option.splits)
    have st: "\<forall>u. staked u (b # bs) = (if u = ?m then bet_amount b + staked u bs else staked u bs)"
      by (simp add: staked_def)
    have run: "refund_bets title (b # bs) w = (Inr (), w')"
      using True s(1) r(1) by (simp add: get_member_def)
    have env: "same_env w w'" using s(3) r(2) same_env_trans by blast
    have "\<forall>u. accounts w' u =
                  (if u \<in> members w \<and> u \<in> bet_user ` set (b # bs)
                   then Some (opened_balance w u + staked u (b # bs)) else accounts w u)"
    proof
      fix u
      show "accounts w' u =
                  (if u \<in> members w \<and> u \<in> bet_user ` set (b # bs)
                   then Some (opened_balance w u + staked u (b # bs)) else accounts w u)"
      proof (cases "u = ?m")
        case True
        then show ?thesis
          using r(3) m op st s(2) \<open>bet_user b \<in> members w\<close> staked_absent[of u bs]
          by (cases "u \<in> bet_user ` set bs") simp_all
      next
        case False
        then show ?thesis
          using r(3) m op st s(2) by simp
      qed
    qed
    then show ?thesis using run env by blast
  qed
qed

text \<open>
  Claim C2, as amended. A confirmed cancellation of a session that holds at least one bet,
  all stakes, balances and the default balance being non-negative, deposits to every
  bettor who is still a member of the guild exactly what that bettor staked on the channel,
  leaves every other balance as it was, and then deletes the row of the session and every
  bet row of the channel, so that \<open>get_betting\<close> on the channel returns none; sessions
  and bets of other channels are untouched.
\<close>

theorem cancel_gamble_refunds:
  assumes "i_text i" and "get_betting (i_channel i) w = Some data" and "allowed i data w"
    and "get_bets (i_channel i) w \<noteq> []"
    and "\<forall>b \<in> set (get_bets (i_channel i) w). 0 \<le> bet_amount b"
    and "0 \<le> DefaultBalance (guild_config w)"
    and "\<forall>u b. accounts w u = Some b \<longrightarrow> 0 \<le> b"
  shows "\<exists>w'. cancel_gamble i (Some True) w = (Inr Cancelled, w') \<and>
           get_betting (i_channel i) w' = None \<and> get_bets (i_channel i) w' = [] \<and>
           (\<forall>u. accounts w' u =
                  (if u \<in> members w \<and> u \<in> bet_user ` set (get_bets (i_channel i) w)
                   then Some (opened_balance w u + staked u (get_bets (i_channel i) w))
                   else accounts w u)) \<and>
           (\<forall>c. c \<noteq> i_channel i \<longrightarrow> get_betting c w' = get_betting c w \<and> get_bets c w' = get_bets c w)"
proof -
  let ?ch = "i_channel i"
  from refund_bets_ok[OF assms(5) assms(6) assms(7), of "b_title data"] obtain w1 where
    r: "refund_bets (b_title data) (get_bets ?ch w) w = (Inr (), w1)" "same_env w w1"
      "\<forall>u. accounts w1 u =
                  (if u \<in> members w \<and> u \<in> bet_user ` set (get_bets ?ch w)
                   then Some (opened_balance w u + staked u (get_bets ?ch w))
                   else accounts w u)" by blast
  let ?w' = "delete_all_bets ?ch (delete_betting ?ch w1)"
  have run: "cancel_gamble i (Some True) w = (Inr Cancelled, ?w')"
    using assms(1-4) r(1) by (simp add: cancel_gamble_def Let_def)
  have e: "bets w1 = bets w" "bettings w1 = bettings w"
    using r(2) by (simp_all add: same_env_def)
  have a: "accounts ?w' = accounts w1"
    by (simp add: delete_all_bets_def delete_betting_def)
  have g: "get_betting ?ch ?w' = None" "get_bets ?ch ?w' = []"
    by (simp_all add: get_betting_def get_bets_def delete_all_bets_def delete_betting_def)
  have o: "\<forall>c. c \<noteq> ?ch \<longrightarrow> get_betting c ?w' = get_betting c w \<and> get_bets c ?w' = get_bets c w"
  proof (intro allI impI)
    fix c assume c: "c \<noteq> ?ch"
    have "filter (\<lambda>b. bet_channel b = c) (filter (\<lambda>b. bet_channel b \<noteq> ?ch) (bets w)) =
          filter (\<lambda>b. bet_channel b = c) (bets w)"
      using c by (induction "bets w") (auto intro: filter_cong)
    then show "get_betting c ?w' = get_betting c w \<and> get_bets c ?w' = get_bets c w"
      using c e by (simp add: get_betting_def get_bets_def delete_all_bets_def delete_betting_def)
  qed
  show ?thesis using run g o r(3) a by auto
qed

theorem cancel_gamble_refunds_witness:
  "i_text auteur \<and> get_bets (i_channel auteur) pari_world \<noteq> [] \<and>
   (\<exists>w'. cancel_gamble auteur (Some True) pari_world = (Inr Cancelled, w') \<and>
         get_betting 7 w' = None \<and> get_bets 7 w' = [] \<and>
         accounts w' 1 = Some 60 \<and> accounts w' 2 = Some 140)"
proof -
  let ?data = "\<lparr>b_title = ''Match'', b_choices = ''heads,tails'', b_message_id = 1,
                 b_minimal_bet = 1, b_author_id = 1\<rparr>"
  have c: "i_channel auteur = 7" "i_text auteur"
    by (simp_all add: auteur_def)
  have b: "get_betting (i_channel auteur) pari_world = Some ?data"
    by (simp add: c get_betting_def pari_world_def)
  have al: "allowed auteur ?data pari_world"
    by (simp add: allowed_def auteur_def get_member_def pari_world_def demo_world_def)
  have g: "get_bets (i_channel auteur) pari_world =
     [\<lparr>bet_id = 1, bet_user = 1, bet_channel = 7, bet_choice = ''heads'', bet_amount = 30\<rparr>,
      \<lparr>bet_id = 2, bet_user = 2, bet_channel = 7, bet_choice = ''tails'', bet_amount = 70\<rparr>]"
    by (simp add: c get_bets_def pari_world_def)
  have ne: "get_bets (i_channel auteur) pari_world \<noteq> []"
    by (simp add: g)
  have st: "\<forall>b \<in> set (get_bets (i_channel auteur) pari_world). 0 \<le> bet_amount b"
    by (simp add: g)
  have d: "0 \<le> DefaultBalance (guild_config pari_world)"
    by (simp add: pari_world_def demo_world_def DEFAULT_CONFIG_def)
  have nn: "\<forall>u b. accounts pari_world u = Some b \<longrightarrow> 0 \<le> b"
    by (auto simp add: pari_world_def demo_world_def split: if_splits)
  have m: "members pari_world = {1, 2}"
    by (simp add: pari_world_def demo_world_def)
  have o: "opened_balance pari_world 1 = 30" "opened_balance pari_world 2 = 70"
    by (simp_all add: opened_balance_def pari_world_def demo_world_def)
  from cancel_gamble_refunds [OF c(2) b al ne st d nn] obtain w' where
    w: "cancel_gamble auteur (Some True) pari_world = (Inr Cancelled, w')"
      "get_betting (i_channel auteur) w' = None" "get_bets (i_channel auteur) w' = []"
      "\<forall>u. accounts w' u =
          (if u \<in> members pari_world \<and> u \<in> bet_user ` set (get_bets (i_channel auteur) pari_world)
           then Some (opened_balance pari_world u + staked u (get_bets (i_channel auteur) pari_world))
           else accounts pari_world u)"
    by blast
  have "accounts w' 1 = Some 60" "accounts w' 2 = Some 140"
    using w(4) by (simp_all add: g m o staked_def)
  then show ?thesis using w c ne by auto
qed

text \<open>A session without a bet is answered "nobody bet" and is left in place.\<close>

lemma cancel_gamble_without_bets:
  "i_text i \<Longrightarrow> get_betting (i_channel i) w = Some data \<Longrightarrow> allowed i data w \<Longrightarrow>
   get_bets (i_channel i) w = [] \<Longrightarrow> cancel_gamble i (Some True) w = (Inr NobodyBet, w)"
  by (simp add: cancel_gamble_def Let_def)

text \<open>The claim as first stated refunds every bettor. User 2 staked 70 and has left the
  guild: the session is cancelled and deleted, and the balance of user 2 is still 70.\<close>

theorem cancel_gamble_absent_bettor_counterexample:
  "accounts left_world 2 = Some 70 \<and>
   staked 2 (get_bets 7 left_world) = 70 \<and>
   fst (cancel_gamble auteur (Some True) left_world) = Inr Cancelled \<and>
   get_betting 7 (snd (cancel_gamble auteur (Some True) left_world)) = None \<and>
   accounts (snd (cancel_gamble auteur (Some True) left_world)) 2 = Some 70"
  by code_simp

section \<open>Economy: colliding transaction ids\<close>

lemma create_rows_exact:
  "transactions (create_if_not_exists t w) =
     (if fl (last_cleanup w + TRANSACTION_CLEANUP_INTERVAL) < clock w (reads w)
      then filter (\<lambda>r. \<not> t_timestamp r < fl (clock w (Suc (reads w)) - TRANSACTION_EXPIRATION_DELAY))
             (transactions (insert_or_ignore_transaction t w))
      else transactions (insert_or_ignore_transaction t w))"
  using insert_keeps[of t w]
  by (simp add: create_if_not_exists_def now_def cleanup_transactions_def same_env_def)

lemma Transaction_rows_exact:
  "\<exists>P. transactions (snd (Transaction u a reason ts w)) =
          filter P (if t_id (fst (Transaction u a reason ts w)) \<in> stored_ids w then transactions w
                    else transactions w @ [fst (Transaction u a reason ts w)]) \<and>
       (\<forall>r. \<not> t_timestamp r < fl (sweep_reading ts w - TRANSACTION_EXPIRATION_DELAY) \<longrightarrow> P r)"
proof -
  let ?t = "fst (Transaction u a reason ts w)"
  let ?w1 = "if ts \<noteq> 0 then w else snd (now w)"
  let ?rows = "if t_id ?t \<in> stored_ids w then transactions w else transactions w @ [?t]"
  have s: "snd (Transaction u a reason ts w) = create_if_not_exists ?t ?w1"
    by (simp add: Transaction_def Let_def now_def)
  have r: "transactions ?w1 = transactions w" "stored_ids ?w1 = stored_ids w"
    using now_rows[of w] by auto
  have c: "clock ?w1 (Suc (reads ?w1)) = sweep_reading ts w"
    by (simp add: sweep_reading_def now_def)
  have i: "transactions (insert_or_ignore_transaction ?t ?w1) = ?rows"
    unfolding insert_rows r ..
  show ?thesis
  proof (cases "fl (last_cleanup ?w1 + TRANSACTION_CLEANUP_INTERVAL) < clock ?w1 (reads ?w1)")
    case True
    have "transactions (snd (Transaction u a reason ts w)) =
            filter (\<lambda>r. \<not> t_timestamp r < fl (sweep_reading ts w - TRANSACTION_EXPIRATION_DELAY)) ?rows"
      unfolding s create_rows_exact[of ?t ?w1] i c using True by simp
    then show ?thesis by blast
  next
    case False
    have "transactions (snd (Transaction u a reason ts w)) = filter (\<lambda>r. True) ?rows"
      unfolding s create_rows_exact[of ?t ?w1] i using False by simp
    then show ?thesis by blast
  qed
qed

text \<open>
  Claim C3. A transaction built for a user in the integer second and with the absolute
  amount of a stored row of that user gets the id of that row (a deposit of \<open>a\<close> and a
  withdrawal of \<open>a\<close> alike). Recording it is ignored: the stored row, with its signed
  amount and its reason, is still in the table, no row is added and the table does not
  grow. The stored row is taken not to be older than the retention delay at the reading
  the sweep uses, as a row of the current second is under any clock that does not jump
  fourteen days.
\<close>

theorem transaction_id_collision:
  assumes "r \<in> set (transactions w)"
    and "t_id r = get_id w (t_timestamp r) u (t_amount r)"
    and "py_int (stamp ts w) = py_int (t_timestamp r)" and "\<bar>a\<bar> = \<bar>t_amount r\<bar>"
    and "\<not> t_timestamp r < fl (sweep_reading ts w - TRANSACTION_EXPIRATION_DELAY)"
  shows "t_id (fst (Transaction u a reason ts w)) = t_id r \<and>
         r \<in> set (transactions (snd (Transaction u a reason ts w))) \<and>
         set (transactions (snd (Transaction u a reason ts w))) \<subseteq> set (transactions w) \<and>
         length (transactions (snd (Transaction u a reason ts w))) \<le> length (transactions w)"
proof -
  let ?t = "fst (Transaction u a reason ts w)"
  have id: "t_id ?t = t_id r"
    using assms(2,3,4) by (simp add: Transaction_object get_id_def)
  then have "t_id ?t \<in> stored_ids w"
    using assms(1) by (auto simp: stored_ids_def)
  with Transaction_rows_exact[of u a reason ts w] obtain P where
    P: "transactions (snd (Transaction u a reason ts w)) = filter P (transactions w)"
      "\<forall>r. \<not> t_timestamp r < fl (sweep_reading ts w - TRANSACTION_EXPIRATION_DELAY) \<longrightarrow> P r"
    by auto
  have "P r" using P(2) assms(5) by blast
  then show ?thesis
    using id P(1) assms(1) by auto
qed

theorem transaction_id_collision_witness:
  "busy_row \<in> set (transactions busy_world) \<and>
   t_id busy_row = get_id busy_world (t_timestamp busy_row) 1 (t_amount busy_row) \<and>
   py_int (stamp 0 busy_world) = py_int (t_timestamp busy_row) \<and>
   \<bar>- 5\<bar> = \<bar>t_amount busy_row\<bar> \<and>
   t_id (fst (Transaction 1 (- 5) ''Pari'' 0 busy_world)) = t_id busy_row \<and>
   busy_row \<in> set (transactions (snd (Transaction 1 (- 5) ''Pari'' 0 busy_world))) \<and>
   length (transactions (snd (Transaction 1 (- 5) ''Pari'' 0 busy_world))) \<le> 1"
proof -
  have h1: "busy_row \<in> set (transactions busy_world)"
    by (simp add: busy_world_def)
  have h2: "t_id busy_row = get_id busy_world (t_timestamp busy_row) 1 (t_amount busy_row)"
    by code_simp
  have h3: "py_int (stamp 0 busy_world) = py_int (t_timestamp busy_row)"
    by code_simp
  have h4: "\<bar>- 5\<bar> = \<bar>t_amount busy_row\<bar>"
    by (simp add: busy_row_def)
  have h5: "\<not> t_timestamp busy_row < fl (sweep_reading 0 busy_world - TRANSACTION_EXPIRATION_DELAY)"
    by code_simp
  have l: "length (transactions busy_world) = 1"
    by (simp add: busy_world_def)
  from transaction_id_collision [OF h1 h2 h3 h4 h5, of "''Pari''"] h1 h2 h3 h4 l
  show ?thesis
    by simp
qed

section \<open>Economy: deposit then withdraw\<close>




lemma recorded_subset: "recorded w t w' \<Longrightarrow> set (transactions w') \<subseteq> set (transactions w) \<union> {t}"
  by (auto simp: recorded_def split: if_splits)









section \<open>Economy: cancelling a transaction\<close>

lemma rebuild_one:
  assumes "consistent_row w r" and "t_user r = u"
  shows "fst (Transaction u (t_amount r) (t_reason r) (t_timestamp r) w) = r"
  using assms by (simp add: Transaction_object stamp_def consistent_row_def)

lemma consistent_row_cong: "sqids w' = sqids w \<Longrightarrow> consistent_row w' r = consistent_row w r"
  by (simp add: consistent_row_def get_id_def)

lemma rebuild_ok:
  assumes "\<forall>r \<in> set rows. consistent_row w r \<and> t_user r = u"
  shows "fst (rebuild u rows w) = rows \<and>
         accounts (snd (rebuild u rows w)) = accounts w \<and>
         same_env w (snd (rebuild u rows w)) \<and>
         set (transactions (snd (rebuild u rows w))) \<subseteq> set (transactions w) \<union> set rows \<and>
         (no_sweep_due w \<and> set rows \<subseteq> set (transactions w) \<longrightarrow>
            transactions (snd (rebuild u rows w)) = transactions w \<and>
            last_cleanup (snd (rebuild u rows w)) = last_cleanup w)"
  using assms
proof (induction rows arbitrary: w)
  case Nil
  then show ?case by (simp add: same_env_refl)
next
  case (Cons r rows)
  let ?T = "Transaction u (t_amount r) (t_reason r) (t_timestamp r) w"
  let ?w1 = "snd ?T"
  have obj: "fst ?T = r" using Cons.prems rebuild_one[of w r u] by simp
  have keep: "accounts ?w1 = accounts w" "same_env w ?w1"
    using Transaction_keeps[of u "t_amount r" "t_reason r" "t_timestamp r" w] by auto
  have env: "sqids ?w1 = sqids w" "clock ?w1 = clock w"
    using keep(2) by (simp_all add: same_env_def)
  from Transaction_rows[of u "t_amount r" "t_reason r" "t_timestamp r" w] obtain P where
    P: "transactions ?w1 = filter P (if t_id r \<in> stored_ids w then transactions w else transactions w @ [r])"
    unfolding obj by blast
  have sub1: "set (transactions ?w1) \<subseteq> set (transactions w) \<union> {r}"
    unfolding P by (auto split: if_splits)
  have quiet1: "transactions ?w1 = transactions w \<and> last_cleanup ?w1 = last_cleanup w"
    if "no_sweep_due w" "r \<in> set (transactions w)"
  proof -
    have "t_id r \<in> stored_ids w" using that(2) by (auto simp: stored_ids_def)
    then show ?thesis
      using Transaction_quiet[OF that(1), of u "t_amount r" "t_reason r" "t_timestamp r"]
      unfolding obj by simp
  qed
  have pre: "\<forall>r \<in> set rows. consistent_row ?w1 r \<and> t_user r = u"
    using Cons.prems consistent_row_cong[OF env(1)] by simp
  note ih = Cons.IH[OF pre]
  let ?R = "rebuild u rows ?w1"
  have run: "rebuild u (r # rows) w = (r # fst ?R, snd ?R)"
    using obj by (simp add: split_def)
  have c1: "fst (rebuild u (r # rows) w) = r # rows" using run ih by simp
  have c2: "accounts (snd (rebuild u (r # rows) w)) = accounts w" using run ih keep by simp
  have c3: "same_env w (snd (rebuild u (r # rows) w))"
    using run ih keep same_env_trans by (metis snd_conv)
  have c4: "set (transactions (snd (rebuild u (r # rows) w))) \<subseteq> set (transactions w) \<union> set (r # rows)"
    using run ih sub1 by auto
  have c5: "transactions (snd (rebuild u (r # rows) w)) = transactions w \<and>
            last_cleanup (snd (rebuild u (r # rows) w)) = last_cleanup w"
    if q: "no_sweep_due w" and s: "set (r # rows) \<subseteq> set (transactions w)"
  proof -
    have q1: "transactions ?w1 = transactions w" "last_cleanup ?w1 = last_cleanup w"
      using quiet1[OF q] s by auto
    have "no_sweep_due ?w1" using q no_sweep_due_cong[OF env(2) q1(2)] by simp
    moreover have "set rows \<subseteq> set (transactions ?w1)" using s q1 by simp
    ultimately show ?thesis using ih run q1 by simp
  qed
  show ?case using c1 c2 c3 c4 c5 by blast
qed

lemma get_transactions_ok:
  assumes "\<forall>r \<in> set (transactions w). consistent_row w r"
  shows "t_id ` set (fst (get_transactions u w)) = t_id ` set (own_rows u w) \<and>
         accounts (snd (get_transactions u w)) = accounts w \<and>
         same_env w (snd (get_transactions u w)) \<and>
         set (transactions (snd (get_transactions u w))) \<subseteq> set (transactions w) \<and>
         (no_sweep_due w \<longrightarrow>
            transactions (snd (get_transactions u w)) = transactions w \<and>
            last_cleanup (snd (get_transactions u w)) = last_cleanup w)"
proof -
  let ?rows = "rev (sort_key t_timestamp (filter (\<lambda>r. t_user r = u) (transactions w)))"
  have s: "set ?rows = set (own_rows u w)" by (simp add: own_rows_def)
  have sub: "set ?rows \<subseteq> set (transactions w)" by auto
  have pre: "\<forall>r \<in> set ?rows. consistent_row w r \<and> t_user r = u"
    using assms by auto
  from rebuild_ok[OF pre] sub s show ?thesis
    unfolding get_transactions_def by auto
qed

text \<open>
  Claim C5, as amended. On a table whose rows are stored under their derived ids,
  \<open>cancel(t)\<close> on the account of \<open>u\<close> raises the validation error when the id of \<open>t\<close>
  is the id of no row of \<open>u\<close>; the balances are then unchanged and no row is added, the
  table being unchanged when no sweep is due. Otherwise, when the balance \<open>b\<close> covers the
  delta of \<open>t\<close>, the balance becomes \<open>b\<close> minus that delta, one transaction of the exact
  negative delta is built, no other row is added, and when no sweep is due and the id of
  the reversal is not stored the table grows by exactly that row; when the balance does not
  cover the delta the storage layer refuses the update and the balances are unchanged.
  When \<open>t\<close> is the transaction that \<open>_set_balance\<close> has just built, the new balance is
  the balance before \<open>t\<close> was applied.
\<close>

theorem cancel_reverses:
  assumes "\<forall>r \<in> set (transactions w). consistent_row w r"
  shows
   "(t_id t \<notin> t_id ` set (own_rows u w) \<longrightarrow>
       (\<exists>w'. cancel u t w = (Inl ValueError, w') \<and> accounts w' = accounts w \<and>
             set (transactions w') \<subseteq> set (transactions w) \<and>
             (no_sweep_due w \<longrightarrow> transactions w' = transactions w))) \<and>
    (t_id t \<in> t_id ` set (own_rows u w) \<and> accounts w u = Some b \<and> t_amount t \<le> b \<longrightarrow>
       (\<exists>t' w'. cancel u t w = (Inr t', w') \<and>
             accounts w' = (accounts w)(u \<mapsto> b - t_amount t) \<and>
             t_amount t' = - t_amount t \<and> t_user t' = u \<and>
             set (transactions w') \<subseteq> set (transactions w) \<union> {t'} \<and>
             (no_sweep_due w \<and> t_id t' \<notin> stored_ids w \<longrightarrow>
                transactions w' = transactions w @ [t']))) \<and>
    (t_id t \<in> t_id ` set (own_rows u w) \<and> accounts w u = Some b \<and> b < t_amount t \<longrightarrow>
       (\<exists>w'. cancel u t w = (Inl IntegrityError, w') \<and> accounts w' = accounts w)) \<and>
    (accounts w0 u = Some b0 \<and> set_balance u v reason0 w0 = (Inr t, w) \<longrightarrow>
       accounts w u = Some v \<and> v - t_amount t = b0)"
proof -
  let ?G = "get_transactions u w"
  let ?w1 = "snd ?G"
  note g = get_transactions_ok[OF assms, of u]
  have ids: "t_id ` set (fst ?G) = t_id ` set (own_rows u w)" using g by blast
  have acc: "accounts ?w1 = accounts w" using g by blast
  have sub: "set (transactions ?w1) \<subseteq> set (transactions w)" using g by blast
  have quiet: "no_sweep_due w \<Longrightarrow> transactions ?w1 = transactions w \<and> last_cleanup ?w1 = last_cleanup w"
    using g by blast
  have env: "clock ?w1 = clock w" using g by (simp add: same_env_def)
  have fails: "\<exists>w'. cancel u t w = (Inl ValueError, w') \<and> accounts w' = accounts w \<and>
             set (transactions w') \<subseteq> set (transactions w) \<and>
             (no_sweep_due w \<longrightarrow> transactions w' = transactions w)"
    if "t_id t \<notin> t_id ` set (own_rows u w)"
  proof -
    have "cancel u t w = (Inl ValueError, ?w1)"
      using that ids by (simp add: cancel_def split_def)
    then show ?thesis using acc sub quiet by blast
  qed
  have works: "\<exists>t' w'. cancel u t w = (Inr t', w') \<and>
             accounts w' = (accounts w)(u \<mapsto> b - t_amount t) \<and>
             t_amount t' = - t_amount t \<and> t_user t' = u \<and>
             set (transactions w') \<subseteq> set (transactions w) \<union> {t'} \<and>
             (no_sweep_due w \<and> t_id t' \<notin> stored_ids w \<longrightarrow>
                transactions w' = transactions w @ [t'])"
    if own: "t_id t \<in> t_id ` set (own_rows u w)" and b: "accounts w u = Some b" and le: "t_amount t \<le> b"
  proof -
    have b1: "accounts ?w1 u = Some b" using acc b by simp
    have c: "cancel u t w = set_balance u (b - t_amount t) (''Annule '' @ t_id t) ?w1"
      using own ids b1 by (simp add: cancel_def split_def get_balance_def)
    have nn: "0 \<le> b - t_amount t" using le by simp
    from set_balance_ok[OF b1 nn, of "''Annule '' @ t_id t"] obtain t' w' where
      r: "set_balance u (b - t_amount t) (''Annule '' @ t_id t) ?w1 = (Inr t', w')"
        "t_amount t' = b - t_amount t - b" "t_user t' = u"
        "accounts w' = (accounts ?w1)(u \<mapsto> b - t_amount t)" "recorded ?w1 t' w'"
      by auto
    have s: "set (transactions w') \<subseteq> set (transactions w) \<union> {t'}"
      using recorded_subset[OF r(5)] sub by auto
    have q: "transactions w' = transactions w @ [t']"
      if n: "no_sweep_due w" and f: "t_id t' \<notin> stored_ids w"
    proof -
      have q1: "transactions ?w1 = transactions w" "last_cleanup ?w1 = last_cleanup w"
        using quiet[OF n] by auto
      have "no_sweep_due ?w1" using n no_sweep_due_cong[OF env q1(2)] by simp
      moreover have "t_id t' \<notin> stored_ids ?w1" using f q1(1) by (simp add: stored_ids_def)
      ultimately show ?thesis using r(5) q1(1) by (simp add: recorded_def)
    qed
    show ?thesis using c r(1,2,3,4) acc s q by auto
  qed
  have refused: "\<exists>w'. cancel u t w = (Inl IntegrityError, w') \<and> accounts w' = accounts w"
    if own: "t_id t \<in> t_id ` set (own_rows u w)" and b: "accounts w u = Some b" and lt: "b < t_amount t"
  proof -
    have b1: "accounts ?w1 u = Some b" using acc b by simp
    have "cancel u t w = (Inl IntegrityError, ?w1)"
      using own ids b1 lt by (simp add: cancel_def split_def get_balance_def set_balance_def Let_def)
    then show ?thesis using acc by blast
  qed
  have restored: "accounts w u = Some v \<and> v - t_amount t = b0"
    if b0: "accounts w0 u = Some b0" and sb: "set_balance u v reason0 w0 = (Inr t, w)"
  proof -
    have v: "0 \<le> v" using sb b0 by (auto simp: set_balance_def get_balance_def Let_def split: if_splits)
    from set_balance_ok[OF b0 v, of reason0] sb show ?thesis by auto
  qed
  show ?thesis using fails works refused restored by blast
qed

lemma fl_3600: "fl 3600 = 3600"
  by code_simp

lemma no_sweep_due_books: "no_sweep_due books_world"
  by (simp add: no_sweep_due_def books_world_def demo_world_def TRANSACTION_CLEANUP_INTERVAL_def
      fl_3600 not_less min.coboundedI2)

theorem cancel_reverses_witness:
  "t_id old_row \<in> t_id ` set (own_rows 1 books_world) \<and> accounts books_world 1 = Some 30 \<and>
   no_sweep_due books_world \<and>
   (\<exists>t' w'. cancel 1 old_row books_world = (Inr t', w') \<and> accounts w' 1 = Some 10 \<and>
      t_amount t' = - 20 \<and> transactions w' = [old_row, t']) \<and>
   t_id old_row \<notin> t_id ` set (own_rows 2 books_world) \<and>
   (\<exists>w'. cancel 2 old_row books_world = (Inl ValueError, w') \<and>
      accounts w' = accounts books_world \<and> transactions w' = [old_row])"
proof -
  have c: "\<forall>r \<in> set (transactions books_world). consistent_row books_world r"
  proof -
    have "consistent_row books_world old_row" by code_simp
    then show ?thesis by (simp add: books_world_def)
  qed
  have o1: "t_id old_row \<in> t_id ` set (own_rows 1 books_world)"
    by (simp add: own_rows_def books_world_def old_row_def)
  have o2: "t_id old_row \<notin> t_id ` set (own_rows 2 books_world)"
    by (simp add: own_rows_def books_world_def old_row_def)
  have b: "accounts books_world 1 = Some 30"
    by (simp add: books_world_def demo_world_def)
  have a: "t_amount old_row = 20"
    by (simp add: old_row_def)
  have tr: "transactions books_world = [old_row]" "stored_ids books_world = {t_id old_row}"
    by (simp_all add: books_world_def stored_ids_def)
  have e: "fst (cancel 1 old_row books_world) =
             Inr \<lparr>t_id = ''1001.1.20.'', t_timestamp = 1001, t_amount = - 20,
                  t_reason = ''Annule 100.1.20.'', t_user = 1\<rparr>"
    by code_simp
  have i: "t_id old_row = ''100.1.20.''"
    by code_simp
  note th = cancel_reverses [OF c, of old_row _ _ books_world 0 0 "[]"]
  have p1: "t_id old_row \<in> t_id ` set (own_rows 1 books_world) \<and> accounts books_world 1 = Some 30 \<and>
            t_amount old_row \<le> 30"
    using o1 b a by simp
  from th [of 1 30, THEN conjunct2, THEN conjunct1, rule_format, OF p1] obtain t' w' where
    r: "cancel 1 old_row books_world = (Inr t', w')"
      "accounts w' = (accounts books_world)(1 \<mapsto> 30 - t_amount old_row)"
      "t_amount t' = - t_amount old_row"
      "no_sweep_due books_world \<and> t_id t' \<notin> stored_ids books_world \<longrightarrow>
         transactions w' = transactions books_world @ [t']"
    by blast
  have "t_id t' = ''1001.1.20.''" using e r(1) by simp
  then have "t_id t' \<notin> stored_ids books_world" by (simp add: tr i)
  then have rows: "transactions w' = [old_row, t']"
    using r(4) no_sweep_due_books tr by simp
  from th [of 2 0, THEN conjunct1, rule_format, OF o2] obtain w2 where
    f: "cancel 2 old_row books_world = (Inl ValueError, w2)" "accounts w2 = accounts books_world"
      "no_sweep_due books_world \<longrightarrow> transactions w2 = transactions books_world"
    by blast
  have f3: "transactions w2 = [old_row]"
    using f(3) no_sweep_due_books tr by simp
  have a1: "accounts w' 1 = Some 10" using r(2) a by simp
  have a2: "t_amount t' = - 20" using r(3) a by simp
  show ?thesis
    using o1 o2 b no_sweep_due_books r(1) a1 a2 rows f(1,2) f3 by blast
qed

text \<open>The claim as first stated has the ledger grow by one on success and all state
  unchanged on failure. In \<open>stale_world\<close> reading the history runs the retention sweep,
  which purges the expired row: after the reversal the table holds one row, as before. In
  \<open>shared_world\<close> the refused cancellation by user 2 purges the expired row of user 1.\<close>

theorem cancel_sweep_counterexample:
  "transactions stale_world = [old_row] \<and>
   fst (cancel 1 old_row stale_world) =
     Inr \<lparr>t_id = ''2000003.1.20.'', t_timestamp = 2000003, t_amount = - 20,
          t_reason = ''Annule 100.1.20.'', t_user = 1\<rparr> \<and>
   transactions (snd (cancel 1 old_row stale_world)) =
     [\<lparr>t_id = ''2000003.1.20.'', t_timestamp = 2000003, t_amount = - 20,
       t_reason = ''Annule 100.1.20.'', t_user = 1\<rparr>] \<and>
   transactions shared_world = [old_row, other_row] \<and>
   fst (cancel 2 old_row shared_world) = Inl ValueError \<and>
   transactions (snd (cancel 2 old_row shared_world)) = [other_row]"
  by code_simp

section \<open>Gambling: the payout that is not reached\<close>

text \<open>The session also stays open: \<open>_stop_gamble\<close> is left by the same error before it
  deletes anything.\<close>

lemma stop_gamble_raises:
  assumes "i_text i" and "get_betting (i_channel i) w = Some data" and "allowed i data w"
    and "get_bets (i_channel i) w \<noteq> []" and "i_channel i \<in> text_channels w"
    and "lower result \<in> set (split_on CHR '','' (b_choices data))"
    and "sum_list (map bet_amount (get_bets (i_channel i) w)) \<noteq> 0"
  shows "stop_gamble i result (Some True) w = (Inl TypeError, w)"
  using assms
  by (simp add: stop_gamble_def handle_winners_def Let_def get_betting_embed_raises)

text \<open>An integer up to \<open>2 ^ 53\<close> is a double, so the quotient \<open>stake * total
  / stake\<close>
  is the pot itself.\<close>

lemma round_half_even_int: "round_half_even (of_int k) = k"
  by (simp add: round_half_even_def)

lemma fl_exact:
  assumes "0 < n" and "n \<le> 2 ^ 53"
  shows "fl (of_int n) = of_int n"
proof -
  let ?e = "bitlen n - 1"
  have b: "2 ^ nat ?e \<le> n" "n < 2 ^ nat (bitlen n)"
    using bitlen_bounds[OF assms(1)] by auto
  have e0: "0 \<le> ?e"
    using assms(1) bitlen_nonneg[of n] bitlen_eq_zero_iff[of n] by linarith
  have p: "(2::int) ^ nat ?e \<le> 2 ^ 53" using b(1) assms(2) by linarith
  have "nat ?e \<le> 53"
    by (rule power_le_imp_le_exp[of "2::int"]) (simp, rule p)
  then have e53: "?e \<le> 53" by linarith
  have bin: "binade \<bar>of_int n\<bar> = ?e"
    using assms(1) by (simp add: binade_def)
  have nz: "(of_int n :: rat) \<noteq> 0" using assms(1) by simp
  show ?thesis
  proof (cases "?e \<le> 52")
    case True
    let ?k = "nat (52 - ?e)"
    have u: "(2::rat) powi (?e - 52) = 1 / 2 ^ ?k"
      using True by (cases "?e = 52") (simp_all add: power_int_def field_simps)
    have q: "(of_int n :: rat) / (1 / 2 ^ ?k) = of_int (n * 2 ^ ?k)" by simp
    have "fl (of_int n) = of_int (round_half_even (of_int (n * 2 ^ ?k))) * (1 / 2 ^ ?k)"
      using nz by (simp only: fl_def bin u q Let_def if_False)
    then have "fl (of_int n) = of_int (n * 2 ^ ?k) * (1 / 2 ^ ?k)"
      unfolding round_half_even_int .
    then show ?thesis by simp
  next
    case False
    then have e: "?e = 53" using e53 by linarith
    then have n: "n = 2 ^ 53" using b(1) assms(2) by simp
    have u: "(2::rat) powi (?e - 52) = 2" using e by simp
    have q: "(of_int n :: rat) / 2 = of_int (2 ^ 52)" unfolding n by simp
    have "fl (of_int n) = of_int (round_half_even (of_int (2 ^ 52))) * 2"
      using nz by (simp only: fl_def bin u q Let_def if_False)
    then have "fl (of_int n) = of_int (2 ^ 52) * 2"
      unfolding round_half_even_int .
    then show ?thesis unfolding n by simp
  qed
qed

lemma stake_cancels:
  assumes "0 < tot" and "tot \<le> 2 ^ 53" and "stake \<noteq> 0"
  shows "int_truediv (stake * tot) stake = Inr (of_int tot) \<and> py_int (of_int tot) = tot"
proof -
  have "(of_int (stake * tot) :: rat) / of_int stake = of_int tot"
    using assms(3) by simp
  then show ?thesis
    using assms fl_exact[OF assms(1,2)] by (simp add: int_truediv_def py_int_def)
qed

lemma wins_absent: "u \<notin> bet_user ` set bs \<Longrightarrow> wins u bs = 0"
  by (induction bs) (auto simp: wins_def)

text \<open>The payout loop, had it been reached with a pot of at most \<open>2 ^ 53\<close> and stakes
  other than zero: every winner who is a member is deposited the whole pot for each
  winning bet, whatever the stake; a winner who has left is listed and not paid.\<close>

lemma pay_winners_pot:
  assumes "0 < tot" and "tot \<le> 2 ^ 53"
    and "\<forall>b \<in> set bs. bet_amount b \<noteq> 0"
    and "0 \<le> DefaultBalance (guild_config w)"
    and "\<forall>u b. accounts w u = Some b \<longrightarrow> 0 \<le> b"
  shows "\<exists>w'. pay_winners title tot bs table w =
             (Inr (table @ map (\<lambda>b. if bet_user b \<in> members w then Gain (bet_user b) tot
                                      else Absent (bet_user b) (bet_amount b)) bs), w') \<and>
           same_env w w' \<and>
           (\<forall>u. accounts w' u =
                  (if u \<in> members w \<and> u \<in> bet_user ` set bs
                   then Some (opened_balance w u + tot * wins u bs) else accounts w u))"
  using assms(3-5)
proof (induction bs arbitrary: w table)
  case Nil
  then show ?case by (simp add: same_env_refl)
next
  case (Cons b bs)
  let ?row = "\<lambda>w b. if bet_user b \<in> members w then Gain (bet_user b) tot
                     else Absent (bet_user b) (bet_amount b)"
  show ?case
  proof (cases "bet_user b \<in> members w")
    case False
    from Cons.IH[of w "table @ [Absent (bet_user b) (bet_amount b)]"] Cons.prems obtain w' where
      r: "pay_winners title tot bs (table @ [Absent (bet_user b) (bet_amount b)]) w =
            (Inr ((table @ [Absent (bet_user b) (bet_amount b)]) @ map (?row w) bs), w')"
        "same_env w w'"
        "\<forall>u. accounts w' u = (if u \<in> members w \<and> u \<in> bet_user ` set bs
                   then Some (opened_balance w u + tot * wins u bs) else accounts w u)" by auto
    have "\<forall>u. u \<in> members w \<longrightarrow> wins u (b # bs) = wins u bs"
      using False by (auto simp: wins_def)
    then show ?thesis using r False by (auto simp: get_member_def)
  next
    case True
    let ?m = "bet_user b"
    let ?reason = "''Gains du pari '' @ title"
    have sc: "int_truediv (bet_amount b * tot) (bet_amount b) = Inr (of_int tot)" "py_int (of_int tot) = tot"
      using stake_cancels[OF assms(1,2), of "bet_amount b"] Cons.prems(1) by auto
    have t0: "0 \<le> tot" using assms(1) by simp
    from refund_step[OF Cons.prems(2) Cons.prems(3) t0, of ?m ?reason]
    obtain t w1 where
      s: "deposit ?m tot ?reason (get_account ?m w) = (Inr t, w1)"
        "accounts w1 = (accounts w)(?m \<mapsto> opened_balance w ?m + tot)" "same_env w w1" by auto
    have o: "0 \<le> opened_balance w ?m"
      using Cons.prems by (auto simp: opened_balance_def split: option.splits)
    have p1: "\<forall>b \<in> set bs. bet_amount b \<noteq> 0" using Cons.prems by simp
    have p2: "0 \<le> DefaultBalance (guild_config w1)" using s(3) Cons.prems by (simp add: same_env_def)
    have p3: "\<forall>u b. accounts w1 u = Some b \<longrightarrow> 0 \<le> b"
      using s(2) Cons.prems o t0 by auto
    from Cons.IH[OF p1 p2 p3, of "table @ [Gain ?m tot]"] obtain w' where
      r: "pay_winners title tot bs (table @ [Gain ?m tot]) w1 =
            (Inr ((table @ [Gain ?m tot]) @ map (?row w1) bs), w')" "same_env w1 w'"
        "\<forall>u. accounts w' u = (if u \<in> members w1 \<and> u \<in> bet_user ` set bs
                   then Some (opened_balance w1 u + tot * wins u bs) else accounts w1 u)" by auto
    have m: "members w1 = members w" "guild_config w1 = guild_config w"
      using s(3) by (simp_all add: same_env_def)
    have op: "\<forall>u. opened_balance w1 u = (if u = ?m then opened_balance w ?m + tot else opened_balance w u)"
      using s(2) m by (simp add: opened_balance_def split: option.splits)
    have st: "\<forall>u. wins u (b # bs) = (if u = ?m then 1 + wins u bs else wins u bs)"
      by (simp add: wins_def)
    have run: "pay_winners title tot (b # bs) table w =
                 (Inr (table @ map (?row w) (b # bs)), w')"
      using True s(1) r(1) sc m by (simp add: get_member_def Let_def)
    have env: "same_env w w'" using s(3) r(2) same_env_trans by blast
    have "\<forall>u. accounts w' u =
                  (if u \<in> members w \<and> u \<in> bet_user ` set (b # bs)
                   then Some (opened_balance w u + tot * wins u (b # bs)) else accounts w u)"
    proof
      fix u
      show "accounts w' u =
                  (if u \<in> members w \<and> u \<in> bet_user ` set (b # bs)
                   then Some (opened_balance w u + tot * wins u (b # bs)) else accounts w u)"
      proof (cases "u = ?m")
        case True
        then show ?thesis
          using r(3) m op st s(2) \<open>bet_user b \<in> members w\<close> wins_absent[of u bs]
          by (cases "u \<in> bet_user ` set bs") (simp_all add: algebra_simps)
      next
        case False
        then show ?thesis
          using r(3) m op st s(2) by simp
      qed
    qed
    then show ?thesis using run env by blast
  qed
qed

end
